theory Spec2Isabelle
  imports Main "HOL-Library.Word" "HOL-Library.Multiset"
begin

section \<open>Go values used by collect.go\<close>

subsection \<open>float64\<close>

text \<open>
  Go's \<^verbatim>\<open>float64\<close> is IEEE 754 binary64. A finite value is kept as sign, magnitude and
  exponent and stands for \<open>(-1)^s * m * 2^e\<close>; a value of the machine has
  \<open>m < 2^53\<close> and \<open>-1074 \<le> e \<le> 971\<close>. The same number may be written with several
  pairs \<open>(m, e)\<close>, so Go's \<^verbatim>\<open>==\<close> is \<open>f64_eq\<close> below and not HOL's equality.
\<close>

datatype float64 = Finite bool nat int | Infinity bool | NaN

definition f64_zero :: float64 where
  "f64_zero = Finite False 0 0"

definition f64_of_int :: "int \<Rightarrow> float64" where
  "f64_of_int n = Finite (n < 0) (nat \<bar>n\<bar>) 0"

definition with_sign :: "bool \<Rightarrow> int \<Rightarrow> int" where
  "with_sign s x = (if s then - x else x)"

text \<open>The number of low bits that do not fit into the 53 bits of the significand.\<close>

function excess_bits :: "nat \<Rightarrow> nat" where
  "excess_bits m = (if m < 2 ^ 53 then 0 else Suc (excess_bits (m div 2)))"
  by pat_completeness auto
termination
  by (relation "measure (\<lambda>m. m)") auto

declare excess_bits.simps [simp del]

text \<open>
  Rounding of the exact result \<open>(-1)^s * m * 2^e\<close> to the nearest value of the format, ties
  to the even significand; a result of magnitude \<open>2^1024\<close> or more overflows to infinity.
\<close>

definition f64_round :: "bool \<Rightarrow> nat \<Rightarrow> int \<Rightarrow> float64" where
  "f64_round s m e =
     (let k = excess_bits m;
          q = m div 2 ^ k;
          r = m mod 2 ^ k;
          q' = (if 2 ^ k < 2 * r \<or> (2 * r = 2 ^ k \<and> odd q) then q + 1 else q);
          e' = e + int k
      in if 0 \<le> e' \<and> 2 ^ 1024 \<le> q' * 2 ^ nat e' then Infinity s else Finite s q' e')"

text \<open>Go's \<^verbatim>\<open>x + y\<close> on float64.\<close>

definition f64_add :: "float64 \<Rightarrow> float64 \<Rightarrow> float64" where
  "f64_add x y =
     (case x of
        NaN \<Rightarrow> NaN
      | Infinity s1 \<Rightarrow>
          (case y of
             NaN \<Rightarrow> NaN
           | Infinity s2 \<Rightarrow> (if s1 = s2 then Infinity s1 else NaN)
           | Finite s2 m2 e2 \<Rightarrow> Infinity s1)
      | Finite s1 m1 e1 \<Rightarrow>
          (case y of
             NaN \<Rightarrow> NaN
           | Infinity s2 \<Rightarrow> Infinity s2
           | Finite s2 m2 e2 \<Rightarrow>
               (let e = min e1 e2;
                    c = with_sign s1 (int m1 * 2 ^ nat (e1 - e)) + with_sign s2 (int m2 * 2 ^ nat (e2 - e))
                in if c = 0 then Finite (s1 \<and> s2) 0 e
                   else f64_round (c < 0) (nat \<bar>c\<bar>) e)))"

text \<open>Go's \<^verbatim>\<open>x == y\<close> and \<^verbatim>\<open>x != y\<close> on float64: NaN differs from everything, the two zeros are equal.\<close>

definition f64_eq :: "float64 \<Rightarrow> float64 \<Rightarrow> bool" where
  "f64_eq x y =
     (case x of
        NaN \<Rightarrow> False
      | Infinity s1 \<Rightarrow> (case y of Infinity s2 \<Rightarrow> s1 = s2 | _ \<Rightarrow> False)
      | Finite s1 m1 e1 \<Rightarrow>
          (case y of
             Finite s2 m2 e2 \<Rightarrow>
               (let e = min e1 e2
                in with_sign s1 (int m1 * 2 ^ nat (e1 - e)) = with_sign s2 (int m2 * 2 ^ nat (e2 - e)))
           | _ \<Rightarrow> False))"

definition f64_ne :: "float64 \<Rightarrow> float64 \<Rightarrow> bool" where
  "f64_ne x y = (\<not> f64_eq x y)"

subsection \<open>strings.SplitN\<close>

text \<open>
  \<^verbatim>\<open>strings.SplitN(s, sep, n)\<close> for a separator of one byte and \<open>n \<ge> 0\<close>: at most \<open>n\<close>
  pieces, the last one holding the unsplit rest; \<open>n = 0\<close> gives no piece at all.
\<close>

fun split_upto :: "char \<Rightarrow> nat \<Rightarrow> string \<Rightarrow> string list" where
  "split_upto sep 0 s = [s]"
| "split_upto sep (Suc k) s =
     (if sep \<in> set s
      then takeWhile (\<lambda>c. c \<noteq> sep) s # split_upto sep k (tl (dropWhile (\<lambda>c. c \<noteq> sep) s))
      else [s])"

definition SplitN :: "string \<Rightarrow> char \<Rightarrow> nat \<Rightarrow> string list" where
  "SplitN s sep n = (if n = 0 then [] else split_upto sep (n - 1) s)"

section \<open>The client_model messages (dto)\<close>

text \<open>
  The fields of \<^verbatim>\<open>dto.Metric\<close> and of its payloads; a field of pointer type is an option,
  \<open>None\<close> being nil. The entries of \<open>Label\<close> are taken to be non-nil, as a repeated message
  field requires. The quantiles and buckets, which collect.go never reads, are left out.
\<close>

record LabelPair =
  Name :: "string option"
  Value :: "string option"

record Gauge =
  Gauge_Value :: "float64 option"

record Counter =
  Counter_Value :: "float64 option"

record Summary =
  SampleCount :: "64 word option"
  SampleSum :: "float64 option"

record Untyped =
  Untyped_Value :: "float64 option"

record Histogram =
  Histogram_SampleCount :: "64 word option"
  Histogram_SampleSum :: "float64 option"

record Metric =
  Label :: "LabelPair list"
  Gauge :: "Gauge option"
  Counter :: "Counter option"
  Summary :: "Summary option"
  Untyped :: "Untyped option"
  Histogram :: "Histogram option"
  TimestampMs :: "64 word option"

text \<open>\<^verbatim>\<open>new(dto.Metric)\<close>: every field nil.\<close>

definition new_Metric :: Metric where
  "new_Metric = \<lparr>Label = [], Gauge = None, Counter = None, Summary = None,
                 Untyped = None, Histogram = None, TimestampMs = None\<rparr>"

text \<open>The generated getters return the zero value for a nil field.\<close>

definition Counter_GetValue :: "Counter \<Rightarrow> float64" where
  "Counter_GetValue c = (case Counter_Value c of Some v \<Rightarrow> v | None \<Rightarrow> f64_zero)"

definition Gauge_GetValue :: "Gauge \<Rightarrow> float64" where
  "Gauge_GetValue g = (case Gauge_Value g of Some v \<Rightarrow> v | None \<Rightarrow> f64_zero)"

definition GetSampleCount :: "Summary \<Rightarrow> 64 word" where
  "GetSampleCount s = (case SampleCount s of Some n \<Rightarrow> n | None \<Rightarrow> 0)"

section \<open>Reporter, handles and collectors\<close>

text \<open>
  The Reporter is the caller's object; what the functions do to it is the sequence of its
  methods they call, oldest first. A format string is kept with its arguments, unformatted.
  \<open>Fatal\<close> ends the calling function, as \<^verbatim>\<open>testing.T\<close> does; the other methods return.
\<close>

datatype arg =
    AString string
  | AStrings "string list"
  | ALabels "LabelPair list"
  | AFloat float64
  | AInt "64 word"
  | AError string

datatype event =
    Helper
  | Logf string "arg list"
  | Error "arg list"
  | Errorf string "arg list"
  | Fatal "arg list"

type_synonym Reporter = "event list"

datatype 'a outcome = Returned 'a | Aborted

text \<open>
  A \<^verbatim>\<open>prometheus.Metric\<close> is its \<^verbatim>\<open>Write\<close> method: from the message it is given to the
  error it returns (\<open>None\<close> is nil) and the message as it leaves it. A
  \<^verbatim>\<open>prometheus.Collector\<close> is the sequence of handles its \<^verbatim>\<open>Collect\<close> sends on the
  channel, in the order the receiving loop takes them.
\<close>

type_synonym prom_Metric = "Metric \<Rightarrow> string option \<times> Metric"

type_synonym Collector = "prom_Metric list"

section \<open>collect.go\<close>

subsection \<open>matches\<close>

text \<open>The inner loop over \<^verbatim>\<open>m.Label\<close>: the value of \<^verbatim>\<open>found\<close> when it ends.\<close>

fun found_label :: "LabelPair list \<Rightarrow> string \<Rightarrow> string \<Rightarrow> bool" where
  "found_label [] expectedName expectedValue = False"
| "found_label (l # ls) expectedName expectedValue =
     (if Name l = None \<or> Value l = None then found_label ls expectedName expectedValue
      else if the (Name l) = expectedName \<and> the (Value l) = expectedValue then True
      else found_label ls expectedName expectedValue)"

fun matches :: "Reporter \<Rightarrow> Metric \<Rightarrow> string list \<Rightarrow> bool \<times> Reporter" where
  "matches t m [] = (True, t)"
| "matches t m (expected # rest) =
     (let parts = SplitN expected (CHR ''='') 2
      in if length parts \<noteq> 2
         then (False, t @ [Error [AString ''metrics labels should have two parts, e.g. key=value'']])
         else let expectedName = parts ! 0; expectedValue = parts ! 1
              in if \<not> found_label (Label m) expectedName expectedValue
                 then (False, t @ [Logf ''label %q not found in %q'' [AString expected, ALabels (Label m)]])
                 else matches t m rest)"

subsection \<open>CollectMetric and CollectMetrics\<close>

text \<open>The result is the pointer \<^verbatim>\<open>metric\<close>: \<open>None\<close> would be nil.\<close>

definition CollectMetric :: "Reporter \<Rightarrow> prom_Metric \<Rightarrow> Metric option \<times> Reporter" where
  "CollectMetric t m =
     (let (err, metric) = m new_Metric;
          t' = (case err of
                  Some e \<Rightarrow> t @ [Errorf ''Failed to collect metric: %v'' [AError e]]
                | None \<Rightarrow> t)
      in (Some metric, t'))"

text \<open>
  CollectMetrics as a function: the receiving loop of the goroutine run over the handles in
  the order they are sent. The runs of the two goroutines are given after it; each of them
  returns what this function computes.
\<close>

fun drain :: "Reporter \<Rightarrow> Metric list \<Rightarrow> prom_Metric list \<Rightarrow> Metric list \<times> Reporter" where
  "drain t result [] = (result, t)"
| "drain t result (m # ms) =
     (let (metric, t') = CollectMetric t m
      in case metric of
           Some x \<Rightarrow> drain t' (result @ [x]) ms
         | None \<Rightarrow> drain t' result ms)"

definition CollectMetrics :: "Reporter \<Rightarrow> Collector \<Rightarrow> Metric list \<times> Reporter" where
  "CollectMetrics t metric = drain t [] metric"

text \<open>
  The two goroutines of CollectMetrics, step by step. The caller runs \<^verbatim>\<open>Collect\<close>, which
  sends its handles on the unbuffered channel \<^verbatim>\<open>metrics\<close> one after the other, then closes
  the channel, then receives from \<^verbatim>\<open>done\<close> and returns \<^verbatim>\<open>result\<close> as it stands at that
  moment. The worker receives a handle (a send and its receive are one step, the channel
  having no buffer), converts and appends it, and receives again; when the channel is
  closed its loop ends and it sends on \<^verbatim>\<open>done\<close>, whose buffer of one is empty. The steps
  of the two interleave freely. \<open>pending\<close> holds the handles \<^verbatim>\<open>Collect\<close> has still to send,
  \<open>collected\<close> is the slice \<^verbatim>\<open>result\<close> and \<open>reports\<close> the Reporter.
\<close>

datatype main_pc = MainCollect | MainClose | MainJoin | MainReturn

datatype worker_pc = WorkerReceive | WorkerConvert prom_Metric | WorkerSignal | WorkerExit

record run_state =
  pending :: "prom_Metric list"
  main_at :: main_pc
  worker_at :: worker_pc
  metrics_closed :: bool
  done_sent :: bool
  collected :: "Metric list"
  reports :: Reporter
  returned :: "Metric list option"

text \<open>The state when the goroutine has been started and \<^verbatim>\<open>Collect\<close> is called.\<close>

definition start :: "Reporter \<Rightarrow> Collector \<Rightarrow> run_state" where
  "start t metric =
     \<lparr>pending = metric, main_at = MainCollect, worker_at = WorkerReceive, metrics_closed = False,
      done_sent = False, collected = [], reports = t, returned = None\<rparr>"

inductive step :: "run_state \<Rightarrow> run_state \<Rightarrow> bool" where
  send:
    "main_at s = MainCollect \<Longrightarrow> pending s = m # ms \<Longrightarrow> worker_at s = WorkerReceive \<Longrightarrow>
     \<not> metrics_closed s \<Longrightarrow>
     step s (s\<lparr>pending := ms, worker_at := WorkerConvert m\<rparr>)"
| convert:
    "worker_at s = WorkerConvert m \<Longrightarrow> CollectMetric (reports s) m = (metric, t') \<Longrightarrow>
     step s (s\<lparr>worker_at := WorkerReceive,
                collected := (case metric of Some x \<Rightarrow> collected s @ [x] | None \<Rightarrow> collected s),
                reports := t'\<rparr>)"
| collect_returns:
    "main_at s = MainCollect \<Longrightarrow> pending s = [] \<Longrightarrow> step s (s\<lparr>main_at := MainClose\<rparr>)"
| close:
    "main_at s = MainClose \<Longrightarrow> step s (s\<lparr>main_at := MainJoin, metrics_closed := True\<rparr>)"
| range_ends:
    "worker_at s = WorkerReceive \<Longrightarrow> metrics_closed s \<Longrightarrow> step s (s\<lparr>worker_at := WorkerSignal\<rparr>)"
| signal:
    "worker_at s = WorkerSignal \<Longrightarrow> \<not> done_sent s \<Longrightarrow>
     step s (s\<lparr>worker_at := WorkerExit, done_sent := True\<rparr>)"
| join:
    "main_at s = MainJoin \<Longrightarrow> done_sent s \<Longrightarrow>
     step s (s\<lparr>main_at := MainReturn, done_sent := False, returned := Some (collected s)\<rparr>)"

subsection \<open>The filter loop of the two assertions\<close>

fun filter_labels :: "Reporter \<Rightarrow> Metric list \<Rightarrow> Metric list \<Rightarrow> string list \<Rightarrow> Metric list \<times> Reporter" where
  "filter_labels t filteredLabels [] labels = (filteredLabels, t)"
| "filter_labels t filteredLabels (m # ms) labels =
     (let (ok, t') = matches t m labels
      in if ok then filter_labels t' (filteredLabels @ [m]) ms labels
         else filter_labels t' filteredLabels ms labels)"

subsection \<open>AssertEquals\<close>

fun sum_values :: "Reporter \<Rightarrow> float64 \<Rightarrow> Metric list \<Rightarrow> float64 outcome \<times> Reporter" where
  "sum_values t actualValue [] = (Returned actualValue, t)"
| "sum_values t actualValue (m # ms) =
     (if Counter m \<noteq> None
      then sum_values t (f64_add actualValue (Counter_GetValue (the (Counter m)))) ms
      else if Gauge m \<noteq> None
      then sum_values t (f64_add actualValue (Gauge_GetValue (the (Gauge m)))) ms
      else (Aborted, t @ [Fatal [AString ''neither a counter nor a gauge'']]))"

definition AssertEquals :: "Reporter \<Rightarrow> float64 \<Rightarrow> Collector \<Rightarrow> string list \<Rightarrow> unit outcome \<times> Reporter" where
  "AssertEquals t expected metric labels =
     (let t0 = t @ [Helper];
          (allLabels, t1) = CollectMetrics t0 metric;
          (filteredLabels, t2) = filter_labels t1 [] allLabels labels
      in case sum_values t2 f64_zero filteredLabels of
           (Aborted, t3) \<Rightarrow> (Aborted, t3)
         | (Returned actualValue, t3) \<Rightarrow>
             (if f64_ne expected actualValue
              then (Returned (), t3 @ [Errorf ''Expected metric with labels=%q to have a value of %v but we got %v''
                                         [AStrings labels, AFloat expected, AFloat actualValue]])
              else (Returned (), t3)))"

subsection \<open>AssertSummarySampleCount\<close>

text \<open>
  Go's \<^verbatim>\<open>int\<close> is taken at 64 bits: \<^verbatim>\<open>int(x)\<close> of a uint64 keeps the 64 bits, and
  \<^verbatim>\<open>+=\<close> wraps around.
\<close>

definition int_of_uint64 :: "64 word \<Rightarrow> 64 word" where
  "int_of_uint64 x = ucast x"

fun sum_counts :: "Reporter \<Rightarrow> 64 word \<Rightarrow> Metric list \<Rightarrow> 64 word outcome \<times> Reporter" where
  "sum_counts t actualValue [] = (Returned actualValue, t)"
| "sum_counts t actualValue (m # ms) =
     (if Summary m = None
      then (Aborted, t @ [Fatal [AString ''metric is not a summary'']])
      else sum_counts t (actualValue + int_of_uint64 (GetSampleCount (the (Summary m)))) ms)"

definition AssertSummarySampleCount :: "Reporter \<Rightarrow> 64 word \<Rightarrow> Collector \<Rightarrow> string list \<Rightarrow> unit outcome \<times> Reporter" where
  "AssertSummarySampleCount t expected metric labels =
     (let t0 = t @ [Helper];
          (allLabels, t1) = CollectMetrics t0 metric;
          (filteredLabels, t2) = filter_labels t1 [] allLabels labels
      in case sum_counts t2 0 filteredLabels of
           (Aborted, t3) \<Rightarrow> (Aborted, t3)
         | (Returned actualValue, t3) \<Rightarrow>
             (if expected \<noteq> actualValue
              then (Returned (), t3 @ [Errorf ''Expected metric with labels=%q to have a sample count of %v but we got %v''
                                         [AStrings labels, AInt expected, AInt actualValue]])
              else (Returned (), t3)))"

subsection \<open>GetMetric\<close>

fun first_match :: "Reporter \<Rightarrow> Metric list \<Rightarrow> string list \<Rightarrow> Metric option \<times> Reporter" where
  "first_match t [] expectedLabels = (None, t)"
| "first_match t (m # ms) expectedLabels =
     (let (ok, t') = matches t m expectedLabels
      in if ok then (Some m, t') else first_match t' ms expectedLabels)"

definition GetMetric :: "Reporter \<Rightarrow> Collector \<Rightarrow> string list \<Rightarrow> Metric option \<times> Reporter" where
  "GetMetric t metric expectedLabels =
     (let (metrics, t1) = CollectMetrics t metric
      in first_match t1 metrics expectedLabels)"

section \<open>Notions used to state the properties\<close>

text \<open>The reports that mark a test as failed.\<close>

definition is_failure :: "event \<Rightarrow> bool" where
  "is_failure ev = (case ev of Error _ \<Rightarrow> True | Errorf _ _ \<Rightarrow> True | Fatal _ \<Rightarrow> True | _ \<Rightarrow> False)"

text \<open>
  A filter entry read as a pair: it is \<open>name=value\<close>, cut at its first \<open>=\<close>, and some label
  of the sample has both fields present and equal to that name and that value.
\<close>

definition has_pair :: "Metric \<Rightarrow> string \<Rightarrow> bool" where
  "has_pair S e =
     (\<exists>n v. e = n @ CHR ''='' # v \<and> CHR ''='' \<notin> set n \<and>
            (\<exists>l \<in> set (Label S). Name l = Some n \<and> Value l = Some v))"

text \<open>A label with both fields present.\<close>

definition present :: "LabelPair \<Rightarrow> bool" where
  "present l = (Name l \<noteq> None \<and> Value l \<noteq> None)"

text \<open>The sample a handle is converted to, and whether its decode failed.\<close>

definition decoded :: "prom_Metric \<Rightarrow> Metric" where
  "decoded h = snd (h new_Metric)"

definition decode_fails :: "prom_Metric \<Rightarrow> bool" where
  "decode_fails h = (fst (h new_Metric) \<noteq> None)"

text \<open>What decoding the handles of a collector reports, and what matching a list of samples reports.\<close>

definition decode_reports :: "Collector \<Rightarrow> event list" where
  "decode_reports c =
     concat (map (\<lambda>h. case fst (h new_Metric) of
                          Some e \<Rightarrow> [Errorf ''Failed to collect metric: %v'' [AError e]]
                        | None \<Rightarrow> []) c)"

definition match_reports :: "Metric list \<Rightarrow> string list \<Rightarrow> event list" where
  "match_reports ms labels = concat (map (\<lambda>m. snd (matches [] m labels)) ms)"

text \<open>
  For the runs of CollectMetrics: the handle the worker holds, what holds in every state
  of a run, and a bound on the steps a state has left.
\<close>

definition converting :: "worker_pc \<Rightarrow> prom_Metric list" where
  "converting w = (case w of WorkerConvert m \<Rightarrow> [m] | _ \<Rightarrow> [])"

definition run_inv :: "Reporter \<Rightarrow> Collector \<Rightarrow> run_state \<Rightarrow> bool" where
  "run_inv t c s =
     (collected s @ map decoded (converting (worker_at s) @ pending s) = map decoded c
      \<and> reports s @ decode_reports (converting (worker_at s) @ pending s) = t @ decode_reports c
      \<and> (metrics_closed s = (main_at s = MainJoin \<or> main_at s = MainReturn))
      \<and> (main_at s \<noteq> MainCollect \<longrightarrow> pending s = [])
      \<and> (worker_at s = WorkerSignal \<or> worker_at s = WorkerExit \<longrightarrow> metrics_closed s)
      \<and> (done_sent s = (worker_at s = WorkerExit \<and> main_at s = MainJoin))
      \<and> (main_at s = MainReturn \<longrightarrow> worker_at s = WorkerExit \<and> returned s = Some (collected s)))"

definition steps_left :: "run_state \<Rightarrow> nat" where
  "steps_left s =
     2 * length (pending s)
     + (case worker_at s of WorkerReceive \<Rightarrow> 2 | WorkerConvert m \<Rightarrow> 3 | WorkerSignal \<Rightarrow> 1 | WorkerExit \<Rightarrow> 0)
     + (case main_at s of MainCollect \<Rightarrow> 3 | MainClose \<Rightarrow> 2 | MainJoin \<Rightarrow> 1 | MainReturn \<Rightarrow> 0)"

text \<open>The number a sample adds to the sum of AssertEquals, and to that of AssertSummarySampleCount.\<close>

definition metric_value :: "Metric \<Rightarrow> float64" where
  "metric_value m =
     (case Counter m of
        Some c \<Rightarrow> Counter_GetValue c
      | None \<Rightarrow> (case Gauge m of Some g \<Rightarrow> Gauge_GetValue g | None \<Rightarrow> f64_zero))"

definition summary_count :: "Metric \<Rightarrow> 64 word" where
  "summary_count m = (case Summary m of Some s \<Rightarrow> int_of_uint64 (GetSampleCount s) | None \<Rightarrow> 0)"

text \<open>Whole numbers among the float64 values, with their magnitude and their value.\<close>

definition f64_is_int :: "float64 \<Rightarrow> bool" where
  "f64_is_int x = (case x of Finite s m e \<Rightarrow> e = 0 | _ \<Rightarrow> False)"

definition f64_magnitude :: "float64 \<Rightarrow> nat" where
  "f64_magnitude x = (case x of Finite s m e \<Rightarrow> m | _ \<Rightarrow> 0)"

definition f64_int_value :: "float64 \<Rightarrow> int" where
  "f64_int_value x = (case x of Finite s m e \<Rightarrow> with_sign s (int m) | _ \<Rightarrow> 0)"

text \<open>Inputs of the examples.\<close>

definition label :: "string \<Rightarrow> string \<Rightarrow> LabelPair" where
  "label n v = \<lparr>Name = Some n, Value = Some v\<rparr>"

definition counter_sample :: "LabelPair list \<Rightarrow> float64 \<Rightarrow> Metric" where
  "counter_sample ls x = new_Metric\<lparr>Label := ls, Counter := Some \<lparr>Counter_Value = Some x\<rparr>\<rparr>"

definition summary_sample :: "LabelPair list \<Rightarrow> 64 word \<Rightarrow> Metric" where
  "summary_sample ls n = new_Metric\<lparr>Label := ls, Summary := Some \<lparr>SampleCount = Some n, SampleSum = None\<rparr>\<rparr>"

text \<open>A handle whose Write stores the sample, and one whose Write fails and stores nothing.\<close>

definition handle_of :: "Metric \<Rightarrow> prom_Metric" where
  "handle_of x = (\<lambda>m. (None, x))"

definition failing_handle :: "string \<Rightarrow> prom_Metric" where
  "failing_handle e = (\<lambda>m. (Some e, m))"

text \<open>The collector of the examples: two counters, \<open>method=GET\<close> at 3 and \<open>method=POST\<close> at 2.\<close>

definition two_counters :: Collector where
  "two_counters =
     [handle_of (counter_sample [label ''method'' ''GET''] (f64_of_int 3)),
      handle_of (counter_sample [label ''method'' ''POST''] (f64_of_int 2))]"

text \<open>A counter followed by a summary with \<open>op=write\<close> and seven observations.\<close>

definition counter_and_summary :: Collector where
  "counter_and_summary =
     [handle_of (counter_sample [label ''method'' ''GET''] (f64_of_int 3)),
      handle_of (summary_sample [label ''op'' ''write''] 7)]"

text \<open>One summary with \<open>op=write\<close> and seven observations.\<close>

definition one_summary :: Collector where
  "one_summary = [handle_of (summary_sample [label ''op'' ''write''] 7)]"

text \<open>A counter whose first label has no name.\<close>

definition half_label_sample :: Metric where
  "half_label_sample =
     counter_sample [\<lparr>Name = None, Value = Some ''GET''\<rparr>, label ''method'' ''GET''] (f64_of_int 3)"

section \<open>The matcher\<close>

lemma SplitN_eq:
  "CHR ''='' \<in> set e \<Longrightarrow>
     SplitN e (CHR ''='') 2 = [takeWhile (\<lambda>c. c \<noteq> CHR ''='') e, tl (dropWhile (\<lambda>c. c \<noteq> CHR ''='') e)]"
  by (simp add: SplitN_def numeral_2_eq_2)

lemma SplitN_no_sep: "CHR ''='' \<notin> set e \<Longrightarrow> SplitN e (CHR ''='') 2 = [e]"
  by (simp add: SplitN_def numeral_2_eq_2)

lemma split_unique:
  assumes "e = n @ c # v" and "c \<notin> set n"
  shows "takeWhile (\<lambda>x. x \<noteq> c) e = n \<and> tl (dropWhile (\<lambda>x. x \<noteq> c) e) = v"
  using assms by (induction n arbitrary: e) auto

lemma split_exists:
  assumes "c \<in> set e"
  shows "e = takeWhile (\<lambda>x. x \<noteq> c) e @ c # tl (dropWhile (\<lambda>x. x \<noteq> c) e) \<and> c \<notin> set (takeWhile (\<lambda>x. x \<noteq> c) e)"
  using assms by (induction e) auto

lemma found_label_iff:
  "found_label ls n v \<longleftrightarrow> (\<exists>l \<in> set ls. Name l = Some n \<and> Value l = Some v)"
  by (induction ls) auto

lemma matches_log: "matches t m F = (fst (matches [] m F), t @ snd (matches [] m F))"
  by (induction F) (simp_all add: Let_def)

lemma matches_step:
  "CHR ''='' \<in> set e \<Longrightarrow> fst (matches t S (e # F)) = (has_pair S e \<and> fst (matches t S F))"
proof -
  assume sep: "CHR ''='' \<in> set e"
  let ?n = "takeWhile (\<lambda>c. c \<noteq> CHR ''='') e"
  let ?v = "tl (dropWhile (\<lambda>c. c \<noteq> CHR ''='') e)"
  have "has_pair S e = found_label (Label S) ?n ?v"
  proof
    assume "has_pair S e"
    then obtain n v where e: "e = n @ CHR ''='' # v" "CHR ''='' \<notin> set n"
      and l: "\<exists>l \<in> set (Label S). Name l = Some n \<and> Value l = Some v"
      unfolding has_pair_def by blast
    from split_unique [OF e] have "?n = n" "?v = v" by simp_all
    with l show "found_label (Label S) ?n ?v" by (simp add: found_label_iff)
  next
    assume "found_label (Label S) ?n ?v"
    then have "\<exists>l \<in> set (Label S). Name l = Some ?n \<and> Value l = Some ?v"
      by (simp add: found_label_iff)
    with split_exists [OF sep] show "has_pair S e"
      unfolding has_pair_def by blast
  qed
  then show ?thesis
    by (simp add: SplitN_eq [OF sep] Let_def)
qed

lemma matches_iff:
  "\<forall>e \<in> set F. CHR ''='' \<in> set e \<Longrightarrow> fst (matches t S F) = (\<forall>e \<in> set F. has_pair S e)"
proof (induction F)
  case Nil
  show ?case by simp
next
  case (Cons e F)
  then have "CHR ''='' \<in> set e" by simp
  from matches_step [OF this] Cons show ?case by simp
qed

lemma matches_malformed_head:
  "CHR ''='' \<notin> set bad \<Longrightarrow>
   matches t m (bad # rest) = (False, t @ [Error [AString ''metrics labels should have two parts, e.g. key=value'']])"
  by (simp add: SplitN_no_sep)

lemma matches_append:
  "matches t m (pre @ F) = (if fst (matches t m pre) then matches (snd (matches t m pre)) m F else matches t m pre)"
  by (induction pre) (simp_all add: Let_def)

lemma found_label_present: "found_label (filter present ls) n v = found_label ls n v"
  by (auto simp: found_label_iff present_def)

lemma matches_present: "fst (matches t (S\<lparr>Label := filter present (Label S)\<rparr>) F) = fst (matches t S F)"
  by (induction F) (simp_all add: Let_def found_label_present)

lemma has_pair_found:
  assumes sep: "CHR ''='' \<in> set e"
  shows "has_pair S e =
           found_label (Label S) (takeWhile (\<lambda>c. c \<noteq> CHR ''='') e) (tl (dropWhile (\<lambda>c. c \<noteq> CHR ''='') e))"
proof
  let ?n = "takeWhile (\<lambda>c. c \<noteq> CHR ''='') e"
  let ?v = "tl (dropWhile (\<lambda>c. c \<noteq> CHR ''='') e)"
  {
    assume "has_pair S e"
    then obtain n v where e: "e = n @ CHR ''='' # v" "CHR ''='' \<notin> set n"
      and l: "\<exists>l \<in> set (Label S). Name l = Some n \<and> Value l = Some v"
      unfolding has_pair_def by blast
    from split_unique [OF e] have "?n = n" "?v = v" by simp_all
    with l show "found_label (Label S) ?n ?v" by (simp add: found_label_iff)
  }
  {
    assume "found_label (Label S) ?n ?v"
    then have "\<exists>l \<in> set (Label S). Name l = Some ?n \<and> Value l = Some ?v"
      by (simp add: found_label_iff)
    with split_exists [OF sep] show "has_pair S e"
      unfolding has_pair_def by blast
  }
qed

lemma matches_Cons_well_formed:
  "CHR ''='' \<in> set e \<Longrightarrow>
   matches t m (e # F) =
     (if has_pair m e then matches t m F
      else (False, t @ [Logf ''label %q not found in %q'' [AString e, ALabels (Label m)]]))"
  by (simp add: has_pair_found SplitN_eq Let_def)

lemma matches_well_formed:
  "\<forall>e \<in> set F. CHR ''='' \<in> set e \<Longrightarrow>
   matches t m F =
     (case find (\<lambda>e. \<not> has_pair m e) F of
        None \<Rightarrow> (True, t)
      | Some e \<Rightarrow> (False, t @ [Logf ''label %q not found in %q'' [AString e, ALabels (Label m)]]))"
proof (induction F)
  case Nil
  show ?case by simp
next
  case (Cons e F)
  then have sep: "CHR ''='' \<in> set e" and rest: "\<forall>e \<in> set F. CHR ''='' \<in> set e" by simp_all
  from Cons.IH [OF rest] show ?case
    by (simp add: matches_Cons_well_formed [OF sep] del: matches.simps)
qed

section \<open>The loops\<close>

lemma CollectMetric_eq:
  "CollectMetric t h = (Some (decoded h), t @ decode_reports [h])"
  by (simp add: CollectMetric_def decoded_def decode_reports_def split: prod.splits option.splits)

lemma decode_reports_Cons: "decode_reports (h # c) = decode_reports [h] @ decode_reports c"
  by (simp add: decode_reports_def)

lemma drain_eq: "drain t result c = (result @ map decoded c, t @ decode_reports c)"
proof (induction c arbitrary: t result)
  case Nil
  show ?case by (simp add: decode_reports_def)
next
  case (Cons h c)
  show ?case
    by (simp add: CollectMetric_eq Cons.IH decode_reports_Cons [of h c])
qed

lemma CollectMetrics_eq: "CollectMetrics t c = (map decoded c, t @ decode_reports c)"
  by (simp add: CollectMetrics_def drain_eq)

lemma filter_labels_eq:
  "filter_labels t acc ms labels =
     (acc @ filter (\<lambda>m. fst (matches [] m labels)) ms, t @ match_reports ms labels)"
proof (induction ms arbitrary: t acc)
  case Nil
  show ?case by (simp add: match_reports_def)
next
  case (Cons m ms)
  have step: "matches t m labels = (fst (matches [] m labels), t @ snd (matches [] m labels))"
    by (rule matches_log)
  show ?case
    by (simp add: step Cons.IH match_reports_def)
qed

lemma sum_values_ok:
  "\<forall>m \<in> set ms. Counter m \<noteq> None \<or> Gauge m \<noteq> None \<Longrightarrow>
   sum_values t acc ms = (Returned (foldl f64_add acc (map metric_value ms)), t)"
  by (induction ms arbitrary: acc) (auto simp: metric_value_def)

lemma sum_values_abort:
  "\<exists>m \<in> set ms. Counter m = None \<and> Gauge m = None \<Longrightarrow>
   sum_values t acc ms = (Aborted, t @ [Fatal [AString ''neither a counter nor a gauge'']])"
  by (induction ms arbitrary: acc) auto

lemma sum_counts_ok:
  "\<forall>m \<in> set ms. Summary m \<noteq> None \<Longrightarrow>
   sum_counts t acc ms = (Returned (acc + sum_list (map summary_count ms)), t)"
  by (induction ms arbitrary: acc) (auto simp: summary_count_def add.assoc)

lemma sum_counts_abort:
  "\<exists>m \<in> set ms. Summary m = None \<Longrightarrow>
   sum_counts t acc ms = (Aborted, t @ [Fatal [AString ''metric is not a summary'']])"
  by (induction ms arbitrary: acc) auto

lemma first_match_eq:
  "first_match t ms labels =
     (find (\<lambda>m. fst (matches [] m labels)) ms,
      t @ match_reports (take (Suc (length (takeWhile (\<lambda>m. \<not> fst (matches [] m labels)) ms))) ms) labels)"
proof (induction ms arbitrary: t)
  case Nil
  show ?case by (simp add: match_reports_def)
next
  case (Cons m ms)
  have step: "matches t m labels = (fst (matches [] m labels), t @ snd (matches [] m labels))"
    by (rule matches_log)
  show ?case
    by (simp add: step Cons.IH match_reports_def)
qed

lemma matches_fst: "fst (matches t m F) = fst (matches [] m F)"
  by (subst matches_log) simp

lemma decode_reports_clean: "\<forall>h \<in> set c. \<not> decode_fails h \<Longrightarrow> decode_reports c = []"
  by (induction c) (auto simp: decode_reports_def decode_fails_def)

lemma matches_clean:
  "\<forall>e \<in> set F. CHR ''='' \<in> set e \<Longrightarrow> \<forall>ev \<in> set (snd (matches [] m F)). \<not> is_failure ev"
proof (induction F)
  case Nil
  show ?case by simp
next
  case (Cons e F)
  then have sep: "CHR ''='' \<in> set e" and IH: "\<forall>ev \<in> set (snd (matches [] m F)). \<not> is_failure ev"
    by simp_all
  show ?case
    using IH by (simp add: SplitN_eq [OF sep] Let_def is_failure_def)
qed

lemma match_reports_clean:
  "\<forall>e \<in> set F. CHR ''='' \<in> set e \<Longrightarrow> \<forall>ev \<in> set (match_reports ms F). \<not> is_failure ev"
  using matches_clean by (auto simp: match_reports_def)

lemma matches_no_Fatal: "Fatal x \<notin> set (snd (matches [] m F))"
  by (induction F) (simp_all add: Let_def)

lemma matches_no_Errorf: "Errorf f x \<notin> set (snd (matches [] m F))"
  by (induction F) (simp_all add: Let_def)

lemma match_reports_no_Fatal: "Fatal x \<notin> set (match_reports ms F)"
  by (auto simp: match_reports_def matches_no_Fatal)

lemma match_reports_no_Errorf: "Errorf f x \<notin> set (match_reports ms F)"
  by (auto simp: match_reports_def matches_no_Errorf)

lemma decode_reports_events:
  "ev \<in> set (decode_reports c) \<Longrightarrow> \<exists>e. ev = Errorf ''Failed to collect metric: %v'' [AError e]"
  by (auto simp: decode_reports_def split: option.splits)

lemma AssertEquals_unfold:
  "AssertEquals t expected metric labels =
     (case sum_values (t @ [Helper] @ decode_reports metric @ match_reports (map decoded metric) labels)
             f64_zero (filter (\<lambda>m. fst (matches [] m labels)) (map decoded metric)) of
        (Aborted, t3) \<Rightarrow> (Aborted, t3)
      | (Returned actualValue, t3) \<Rightarrow>
          (if f64_ne expected actualValue
           then (Returned (), t3 @ [Errorf ''Expected metric with labels=%q to have a value of %v but we got %v''
                                      [AStrings labels, AFloat expected, AFloat actualValue]])
           else (Returned (), t3)))"
  by (simp add: AssertEquals_def CollectMetrics_eq filter_labels_eq)

lemma AssertSummarySampleCount_unfold:
  "AssertSummarySampleCount t expected metric labels =
     (case sum_counts (t @ [Helper] @ decode_reports metric @ match_reports (map decoded metric) labels)
             0 (filter (\<lambda>m. fst (matches [] m labels)) (map decoded metric)) of
        (Aborted, t3) \<Rightarrow> (Aborted, t3)
      | (Returned actualValue, t3) \<Rightarrow>
          (if expected \<noteq> actualValue
           then (Returned (), t3 @ [Errorf ''Expected metric with labels=%q to have a sample count of %v but we got %v''
                                      [AStrings labels, AInt expected, AInt actualValue]])
           else (Returned (), t3)))"
  by (simp add: AssertSummarySampleCount_def CollectMetrics_eq filter_labels_eq)

lemma GetMetric_unfold:
  "GetMetric t metric labels =
     (find (\<lambda>m. fst (matches [] m labels)) (map decoded metric),
      t @ decode_reports metric @
      match_reports (take (Suc (length (takeWhile (\<lambda>m. \<not> fst (matches [] m labels)) (map decoded metric))))
                       (map decoded metric)) labels)"
  by (simp add: GetMetric_def CollectMetrics_eq first_match_eq)

lemma sum_values_stops:
  "sum_values t acc ms =
   sum_values t acc (take (Suc (length (takeWhile (\<lambda>m. Counter m \<noteq> None \<or> Gauge m \<noteq> None) ms))) ms)"
  by (induction ms arbitrary: acc) auto

section \<open>The runs of CollectMetrics\<close>

lemma run_inv_start: "run_inv t c (start t c)"
  by (simp add: run_inv_def start_def converting_def)

lemma run_inv_step: "step s s' \<Longrightarrow> run_inv t c s \<Longrightarrow> run_inv t c s'"
proof (induction rule: step.induct)
  case (convert s m metric t')
  from convert(2) have m: "metric = Some (decoded m)" and t': "t' = reports s @ decode_reports [m]"
    by (simp_all add: CollectMetric_eq)
  from convert(1,3) show ?case
    by (simp add: run_inv_def converting_def m t' decode_reports_Cons [of m "pending s"])
next
  case (send s m ms)
  then show ?case
    by (simp add: run_inv_def converting_def decode_reports_Cons [of m ms])
qed (auto simp: run_inv_def converting_def)

lemma run_inv_steps: "step\<^sup>*\<^sup>* s s' \<Longrightarrow> run_inv t c s \<Longrightarrow> run_inv t c s'"
  by (induction rule: rtranclp_induct) (auto intro: run_inv_step)

lemma run_inv_returned:
  assumes "run_inv t c s" and "main_at s = MainReturn"
  shows "returned s = Some (map decoded c) \<and> pending s = [] \<and> worker_at s = WorkerExit
         \<and> (collected s, reports s) = CollectMetrics t c"
  using assms by (auto simp: run_inv_def converting_def CollectMetrics_eq decode_reports_def)

lemma step_decreases: "step s s' \<Longrightarrow> steps_left s' < steps_left s"
  by (induction rule: step.induct) (simp_all add: steps_left_def)

lemma run_inv_progress:
  assumes "run_inv t c s" and "main_at s \<noteq> MainReturn"
  shows "\<exists>s'. step s s'"
proof (cases "main_at s")
  case MainCollect
  show ?thesis
  proof (cases "pending s")
    case Nil
    with MainCollect show ?thesis by (blast intro: step.collect_returns)
  next
    case (Cons m ms)
    from assms(1) MainCollect have unclosed: "\<not> metrics_closed s" by (simp add: run_inv_def)
    with assms(1) have "worker_at s = WorkerReceive \<or> (\<exists>h. worker_at s = WorkerConvert h)"
      by (cases "worker_at s") (auto simp: run_inv_def)
    then show ?thesis
    proof
      assume "worker_at s = WorkerReceive"
      with MainCollect Cons unclosed show ?thesis by (blast intro: step.send)
    next
      assume "\<exists>h. worker_at s = WorkerConvert h"
      then obtain h where h: "worker_at s = WorkerConvert h" ..
      obtain metric t' where "CollectMetric (reports s) h = (metric, t')" by (cases "CollectMetric (reports s) h")
      with h show ?thesis by (blast intro: step.convert)
    qed
  qed
next
  case MainClose
  then show ?thesis by (blast intro: step.close)
next
  case MainJoin
  with assms(1) have closed: "metrics_closed s" by (simp add: run_inv_def)
  show ?thesis
  proof (cases "worker_at s")
    case WorkerReceive
    with closed show ?thesis by (blast intro: step.range_ends)
  next
    case (WorkerConvert h)
    obtain metric t' where "CollectMetric (reports s) h = (metric, t')" by (cases "CollectMetric (reports s) h")
    with WorkerConvert show ?thesis by (blast intro: step.convert)
  next
    case WorkerSignal
    with assms(1) have "\<not> done_sent s" by (simp add: run_inv_def)
    with WorkerSignal show ?thesis by (blast intro: step.signal)
  next
    case WorkerExit
    with assms(1) MainJoin have "done_sent s" by (simp add: run_inv_def)
    with MainJoin show ?thesis by (blast intro: step.join)
  qed
next
  case MainReturn
  with assms(2) show ?thesis by simp
qed

lemma run_exists:
  "run_inv t c s \<Longrightarrow> \<exists>s'. step\<^sup>*\<^sup>* s s' \<and> main_at s' = MainReturn"
proof (induction "steps_left s" arbitrary: s rule: less_induct)
  case less
  show ?case
  proof (cases "main_at s = MainReturn")
    case True
    then show ?thesis by blast
  next
    case False
    from run_inv_progress [OF less.prems False] obtain s1 where s1: "step s s1" ..
    from less.hyps [OF step_decreases [OF s1] run_inv_step [OF s1 less.prems]]
    obtain s' where "step\<^sup>*\<^sup>* s1 s'" "main_at s' = MainReturn" by blast
    with s1 show ?thesis by (blast intro: converse_rtranclp_into_rtranclp)
  qed
qed

section \<open>Sums of whole numbers in float64\<close>

lemma excess_bits_small: "m < 2 ^ 53 \<Longrightarrow> excess_bits m = 0"
  by (subst excess_bits.simps) simp

lemma f64_round_small: "m < 2 ^ 53 \<Longrightarrow> f64_round s m 0 = Finite s m 0"
proof -
  assume m: "m < 2 ^ 53"
  have "(2::nat) ^ 53 \<le> 2 ^ 1024" by (rule power_increasing) simp_all
  with m have "\<not> (2::nat) ^ 1024 \<le> m" by linarith
  with m show ?thesis
    by (simp add: f64_round_def excess_bits_small)
qed

lemma f64_add_int:
  assumes "\<bar>A + with_sign s (int m)\<bar> < 2 ^ 53"
  shows "f64_add (f64_of_int A) (Finite s m 0) = f64_of_int (A + with_sign s (int m))"
proof -
  let ?c = "A + with_sign s (int m)"
  have c: "with_sign (A < 0) (int (nat \<bar>A\<bar>)) + with_sign s (int m) = ?c"
    by (simp add: with_sign_def)
  show ?thesis
  proof (cases "?c = 0")
    case True
    then have "\<not> (A < 0 \<and> s)" by (auto simp: with_sign_def)
    with True c show ?thesis
      by (simp add: f64_add_def f64_of_int_def)
  next
    case False
    from assms have "nat \<bar>?c\<bar> < 2 ^ 53" by simp
    from f64_round_small [OF this] False c show ?thesis
      by (simp add: f64_add_def f64_of_int_def Let_def)
  qed
qed

lemma foldl_f64_add_ints:
  assumes "\<forall>x \<in> set xs. f64_is_int x"
    and "\<bar>A\<bar> + int (sum_list (map f64_magnitude xs)) < 2 ^ 53"
  shows "foldl f64_add (f64_of_int A) xs = f64_of_int (A + sum_list (map f64_int_value xs))"
  using assms
proof (induction xs arbitrary: A)
  case Nil
  show ?case by simp
next
  case (Cons x xs)
  from Cons.prems(1) obtain s m where x: "x = Finite s m 0"
    by (cases x) (auto simp: f64_is_int_def)
  have bound: "\<bar>A + with_sign s (int m)\<bar> \<le> \<bar>A\<bar> + int m"
    by (cases s) (simp_all add: with_sign_def)
  have mag: "f64_magnitude x = m" using x by (simp add: f64_magnitude_def)
  from bound Cons.prems(2) mag have small: "\<bar>A + with_sign s (int m)\<bar> < 2 ^ 53"
    by simp
  from bound Cons.prems(2) mag
  have rest: "\<bar>A + with_sign s (int m)\<bar> + int (sum_list (map f64_magnitude xs)) < 2 ^ 53"
    by simp
  from Cons.prems(1) have ints: "\<forall>x \<in> set xs. f64_is_int x" by simp
  from Cons.IH [OF ints rest] f64_add_int [OF small] x show ?case
    by (simp add: f64_int_value_def add.assoc)
qed

lemma sum_list_perm:
  fixes f :: "'a \<Rightarrow> 'b::comm_monoid_add"
  shows "mset xs = mset ys \<Longrightarrow> sum_list (map f xs) = sum_list (map f ys)"
proof -
  assume "mset xs = mset ys"
  then have "mset (map f xs) = mset (map f ys)" by simp
  then have "sum_mset (mset (map f xs)) = sum_mset (mset (map f ys))" by simp
  then show ?thesis by (simp only: sum_mset_sum_list)
qed

section \<open>Evaluation on the examples\<close>

lemma excess_bits_big: "2 ^ 53 \<le> m \<Longrightarrow> excess_bits m = Suc (excess_bits (m div 2))"
  by (subst excess_bits.simps) simp

lemma f64_zero_of_int: "f64_zero = f64_of_int 0"
  by (simp add: f64_zero_def f64_of_int_def)

lemma f64_add_of_int:
  "\<bar>a + b\<bar> < 2 ^ 53 \<Longrightarrow> f64_add (f64_of_int a) (f64_of_int b) = f64_of_int (a + b)"
proof -
  assume small: "\<bar>a + b\<bar> < 2 ^ 53"
  have b: "with_sign (b < 0) (int (nat \<bar>b\<bar>)) = b" by (simp add: with_sign_def)
  from small have "\<bar>a + with_sign (b < 0) (int (nat \<bar>b\<bar>))\<bar> < 2 ^ 53" by (simp only: b)
  from f64_add_int [OF this] show ?thesis by (simp only: b f64_of_int_def [of b])
qed

lemma f64_eq_of_int: "f64_eq (f64_of_int a) (f64_of_int b) = (a = b)"
  by (auto simp: f64_eq_def f64_of_int_def with_sign_def)

lemmas f64_eval = f64_add_def f64_of_int_def f64_zero_def with_sign_def f64_round_def
  excess_bits_small excess_bits_big Let_def

lemmas sample_defs = counter_sample_def summary_sample_def label_def new_Metric_def
lemmas matches_eval = SplitN_def numeral_2_eq_2 Let_def

lemma mGG: "matches t (counter_sample [label ''method'' ''GET''] x) [''method=GET''] = (True, t)"
  by (simp add: sample_defs matches_eval)

lemma mPG: "matches t (counter_sample [label ''method'' ''POST''] x) [''method=GET'']
   = (False, t @ [Logf ''label %q not found in %q'' [AString ''method=GET'', ALabels [label ''method'' ''POST'']]])"
  by (simp add: sample_defs matches_eval)

lemma dec2: "map decoded two_counters =
   [counter_sample [label ''method'' ''GET''] (f64_of_int 3), counter_sample [label ''method'' ''POST''] (f64_of_int 2)]"
  by (simp add: two_counters_def decoded_def handle_of_def)

lemma dr2: "decode_reports two_counters = []"
  by (simp add: two_counters_def decode_reports_def handle_of_def)

lemma two_counters_GET:
  "filter (\<lambda>m. fst (matches [] m [''method=GET''])) (map decoded two_counters)
     = [counter_sample [label ''method'' ''GET''] (f64_of_int 3)]"
  by (simp add: dec2 mGG mPG del: matches.simps)

lemma two_counters_GET_log:
  "match_reports (map decoded two_counters) [''method=GET'']
     = [Logf ''label %q not found in %q'' [AString ''method=GET'', ALabels [label ''method'' ''POST'']]]"
  by (simp add: dec2 match_reports_def mGG mPG del: matches.simps)

lemma two_counters_clean: "\<forall>h \<in> set two_counters. \<not> decode_fails h"
  by (simp add: two_counters_def decode_fails_def handle_of_def)

lemma dec_cs: "map decoded counter_and_summary =
   [counter_sample [label ''method'' ''GET''] (f64_of_int 3), summary_sample [label ''op'' ''write''] 7]"
  by (simp add: counter_and_summary_def decoded_def handle_of_def)

lemma dr_cs: "decode_reports counter_and_summary = []"
  by (simp add: counter_and_summary_def decode_reports_def handle_of_def)

lemma match_reports_empty_filter: "match_reports ms [] = []"
  by (simp add: match_reports_def)

lemma mG200: "matches t (counter_sample [label ''method'' ''GET''] x) [''code=200'']
   = (False, t @ [Logf ''label %q not found in %q'' [AString ''code=200'', ALabels [label ''method'' ''GET'']]])"
  by (simp add: sample_defs matches_eval)

lemma mP200: "matches t (counter_sample [label ''method'' ''POST''] x) [''code=200'']
   = (False, t @ [Logf ''label %q not found in %q'' [AString ''code=200'', ALabels [label ''method'' ''POST'']]])"
  by (simp add: sample_defs matches_eval)

lemma dec_os: "map decoded one_summary = [summary_sample [label ''op'' ''write''] 7]"
  by (simp add: one_summary_def decoded_def handle_of_def)

lemma dr_os: "decode_reports one_summary = []"
  by (simp add: one_summary_def decode_reports_def handle_of_def)

lemma mSW: "matches t (summary_sample [label ''op'' ''write''] n) [''op=write''] = (True, t)"
  by (simp add: sample_defs matches_eval)

lemma count7: "summary_count (summary_sample [label ''op'' ''write''] 7) = 7"
  by (simp add: summary_count_def summary_sample_def GetSampleCount_def int_of_uint64_def new_Metric_def)

lemma counter_value: "metric_value (counter_sample ls x) = x"
  by (simp add: metric_value_def counter_sample_def Counter_GetValue_def)

lemma counter_has_payload: "Counter (counter_sample ls x) = Some \<lparr>Counter_Value = Some x\<rparr>"
  by (simp add: counter_sample_def)

lemma of_int_is_int: "f64_is_int (f64_of_int n)"
  by (simp add: f64_is_int_def f64_of_int_def)

lemma of_int_magnitude: "f64_magnitude (f64_of_int n) = nat \<bar>n\<bar>"
  by (simp add: f64_magnitude_def f64_of_int_def)

lemma of_int_value: "f64_int_value (f64_of_int n) = n"
  by (simp add: f64_int_value_def f64_of_int_def with_sign_def)

lemma sum_values_counter:
  "sum_values t acc (counter_sample ls x # ms) = sum_values t (f64_add acc x) ms"
  by (simp add: counter_sample_def Counter_GetValue_def)

lemma decoded_handle_of: "decoded (handle_of x) = x"
  by (simp add: decoded_def handle_of_def)

lemma decode_reports_handle_of: "decode_reports (map handle_of xs) = []"
  by (induction xs) (simp_all add: decode_reports_def handle_of_def)

lemma matches_badfilter:
  "matches t m [''badfilter''] =
     (False, t @ [Error [AString ''metrics labels should have two parts, e.g. key=value'']])"
  by (simp add: matches_eval)

lemma reports_clean:
  assumes "\<forall>e \<in> set F. CHR ''='' \<in> set e" and "\<forall>h \<in> set c. \<not> decode_fails h"
  shows "\<forall>ev \<in> set (decode_reports c @ match_reports ms F). \<not> is_failure ev"
  using match_reports_clean [OF assms(1), of ms] decode_reports_clean [OF assms(2)] by simp

lemma has_pair_GET: "has_pair (counter_sample [label ''method'' ''GET''] x) ''method=GET''"
  using matches_iff [of "[''method=GET'']" t "counter_sample [label ''method'' ''GET''] x"]
  by (simp add: mGG del: matches.simps)

lemma no_pair_200: "\<not> has_pair (counter_sample [label ''method'' ''GET''] x) ''code=200''"
  using matches_iff [of "[''code=200'']" t "counter_sample [label ''method'' ''GET''] x"]
  by (simp add: mG200 del: matches.simps)

section \<open>The matcher's verdict\<close>

text \<open>
  C2: for a filter whose entries all have an \<open>=\<close>, matches returns true exactly when
  every entry, cut at its first \<open>=\<close> into a name and a value, is found among the labels
  of the sample as a label with both fields present and equal to that name and that value.
  The empty filter matches every sample. A label that lacks its name or its value
  satisfies no entry: leaving such labels out of the sample never changes the verdict.
\<close>

theorem matches_iff_every_pair_present:
  "((\<forall>e \<in> set F. CHR ''='' \<in> set e) \<longrightarrow>
      fst (matches t S F) = (\<forall>e \<in> set F. has_pair S e))
   \<and> fst (matches t S [])
   \<and> fst (matches t (S\<lparr>Label := filter present (Label S)\<rparr>) F) = fst (matches t S F)"
  using matches_iff [of F t S] matches_present [of t S F] by simp

text \<open>
  A counter with the labels (no name, \<open>GET\<close>) and \<open>method=GET\<close>: the entry \<open>method=GET\<close>
  is found; the entry \<open>=GET\<close> is not, the label that has this value has no name.
\<close>

theorem matches_iff_every_pair_present_witness:
  "list_all (\<lambda>e. CHR ''='' \<in> set e) [''method=GET'']
   \<and> fst (matches [] half_label_sample [''method=GET''])
   \<and> list_all (has_pair half_label_sample) [''method=GET'']
   \<and> \<not> fst (matches [] half_label_sample [''method=GET'', ''=GET''])"
proof -
  have wf: "\<forall>e \<in> set [''method=GET'']. CHR ''='' \<in> set e" by simp
  have m: "fst (matches [] half_label_sample [''method=GET''])"
    by (simp add: half_label_sample_def sample_defs matches_eval)
  have n: "\<not> fst (matches [] half_label_sample [''method=GET'', ''=GET''])"
    by (simp add: half_label_sample_def sample_defs matches_eval)
  from matches_iff_every_pair_present [of "[''method=GET'']" "[]" half_label_sample] wf m n
  show ?thesis
    unfolding list_all_iff by simp
qed

text \<open>
  C7, as the code has it: a filter entry without \<open>=\<close> makes matches return false,
  whatever the labels of the sample are. The scan goes through the entries in order and
  stops at the first one that fails. For the first entry without \<open>=\<close>: when every
  entry before it is found among the labels, matches reports the format error there and
  nothing else, whatever the labels and the remaining entries are; when some entry before
  it is not found, matches has stopped at the first entry not found, its only report is
  the log line for that entry, and no error is reported.
\<close>

theorem matches_malformed_entry:
  "CHR ''='' \<notin> set bad \<Longrightarrow>
     fst (matches t m (pre @ bad # rest)) = False
     \<and> ((\<forall>e \<in> set pre. CHR ''='' \<in> set e) \<longrightarrow>
          matches t m (pre @ bad # rest) =
            (case find (\<lambda>e. \<not> has_pair m e) pre of
               None \<Rightarrow> (False, t @ [Error [AString ''metrics labels should have two parts, e.g. key=value'']])
             | Some e \<Rightarrow> (False, t @ [Logf ''label %q not found in %q'' [AString e, ALabels (Label m)]])))"
proof -
  assume bad: "CHR ''='' \<notin> set bad"
  have head: "\<And>t'. matches t' m (bad # rest) =
      (False, t' @ [Error [AString ''metrics labels should have two parts, e.g. key=value'']])"
    by (rule matches_malformed_head [OF bad])
  have false: "fst (matches t m (pre @ bad # rest)) = False"
    by (simp add: matches_append head del: matches.simps)
  have scan: "matches t m (pre @ bad # rest) =
            (case find (\<lambda>e. \<not> has_pair m e) pre of
               None \<Rightarrow> (False, t @ [Error [AString ''metrics labels should have two parts, e.g. key=value'']])
             | Some e \<Rightarrow> (False, t @ [Logf ''label %q not found in %q'' [AString e, ALabels (Label m)]]))"
    if wf: "\<forall>e \<in> set pre. CHR ''='' \<in> set e"
    by (simp add: matches_append matches_well_formed [OF wf] head split: option.splits del: matches.simps)
  from false scan show ?thesis by blast
qed

text \<open>
  The entry \<open>badfilter\<close> behind an entry that is found, and behind one that is not
  found.
\<close>

theorem matches_malformed_entry_witness:
  "CHR ''='' \<notin> set ''badfilter''
   \<and> list_all (\<lambda>e. CHR ''='' \<in> set e) [''method=GET'']
   \<and> list_all (\<lambda>e. CHR ''='' \<in> set e) [''code=200'']
   \<and> matches [] (counter_sample [label ''method'' ''GET''] (f64_of_int 3)) [''method=GET'', ''badfilter'', ''code=200'']
       = (False, [Error [AString ''metrics labels should have two parts, e.g. key=value'']])
   \<and> matches [] (counter_sample [label ''method'' ''GET''] (f64_of_int 3)) [''code=200'', ''badfilter'', ''method=GET'']
       = (False, [Logf ''label %q not found in %q'' [AString ''code=200'', ALabels [label ''method'' ''GET'']]])"
proof -
  let ?m = "counter_sample [label ''method'' ''GET''] (f64_of_int 3)"
  have bad: "CHR ''='' \<notin> set ''badfilter''" by simp
  have wf1: "\<forall>e \<in> set [''method=GET'']. CHR ''='' \<in> set e" by simp
  have wf2: "\<forall>e \<in> set [''code=200'']. CHR ''='' \<in> set e" by simp
  have labels: "Label ?m = [label ''method'' ''GET'']" by (simp add: counter_sample_def)
  from matches_malformed_entry [OF bad, of "[]" ?m "[''method=GET'']" "[''code=200'']"]
       matches_malformed_entry [OF bad, of "[]" ?m "[''code=200'']" "[''method=GET'']"]
       bad wf1 wf2
  show ?thesis
    unfolding list_all_iff
    by (simp add: has_pair_GET no_pair_200 labels del: matches.simps)
qed

text \<open>
  The entry \<open>badfilter\<close> behind an entry that is not found: the verdict is false and the
  only report is the log line of the first entry; no error is reported for the entry
  without \<open>=\<close>, so whether the error is reported depends on the labels of the sample.
\<close>

theorem matches_malformed_entry_counterexample:
  "matches [] (counter_sample [label ''method'' ''GET''] (f64_of_int 3)) [''code=200'', ''badfilter'']
     = (False, [Logf ''label %q not found in %q'' [AString ''code=200'', ALabels [label ''method'' ''GET'']]])"
  by (simp add: sample_defs matches_eval)

section \<open>The collector adapter\<close>

text \<open>
  C8: in every run of CollectMetrics, however the steps of the caller and of the worker
  interleave, the list the caller returns holds the conversions of the handles the
  collector pushed, one for each handle and in the order of the pushes; when the caller
  returns, no handle is left to send, none is left in conversion and the worker has ended.
  The returned list and the reports are those the function CollectMetrics computes. Such
  a run exists, no state before the return is stuck, and every step uses up the bound, so
  that every run comes to the return.
\<close>

theorem CollectMetrics_run_drains_in_order:
  "(\<forall>s. step\<^sup>*\<^sup>* (start t c) s \<and> main_at s = MainReturn \<longrightarrow>
        returned s = Some (map decoded c) \<and> pending s = [] \<and> worker_at s = WorkerExit
        \<and> (collected s, reports s) = CollectMetrics t c)
   \<and> (\<exists>s. step\<^sup>*\<^sup>* (start t c) s \<and> main_at s = MainReturn)
   \<and> (\<forall>s. step\<^sup>*\<^sup>* (start t c) s \<and> main_at s \<noteq> MainReturn \<longrightarrow> (\<exists>s'. step s s'))
   \<and> (\<forall>s s'. step s s' \<longrightarrow> steps_left s' < steps_left s)"
  using run_inv_returned [OF run_inv_steps [OF _ run_inv_start]]
        run_exists [OF run_inv_start]
        run_inv_progress [OF run_inv_steps [OF _ run_inv_start]]
        step_decreases
  by blast

text \<open>The two counters: a run returns them in the order they were pushed.\<close>

theorem CollectMetrics_run_drains_in_order_witness:
  "\<exists>s. step\<^sup>*\<^sup>* (start [] two_counters) s \<and> main_at s = MainReturn
       \<and> returned s = Some [counter_sample [label ''method'' ''GET''] (f64_of_int 3),
                               counter_sample [label ''method'' ''POST''] (f64_of_int 2)]"
proof -
  from CollectMetrics_run_drains_in_order [of "[]" two_counters]
  obtain s where run: "step\<^sup>*\<^sup>* (start [] two_counters) s" and ret: "main_at s = MainReturn"
    by blast
  with CollectMetrics_run_drains_in_order [of "[]" two_counters]
  have "returned s = Some (map decoded two_counters)" by blast
  then have "returned s = Some [counter_sample [label ''method'' ''GET''] (f64_of_int 3),
                               counter_sample [label ''method'' ''POST''] (f64_of_int 2)]"
    by (simp only: dec2)
  with run ret show ?thesis by (intro exI conjI)
qed

text \<open>
  The wait for \<^verbatim>\<open>done\<close> is what makes the list complete: the caller can have closed
  the channel while the worker still converts the last handle, and \<^verbatim>\<open>result\<close> is then
  one sample short.
\<close>

lemma close_may_overtake_convert:
  "\<exists>s. step\<^sup>*\<^sup>* (start t [h]) s \<and> main_at s = MainJoin \<and> worker_at s = WorkerConvert h
       \<and> collected s = []"
proof -
  let ?s1 = "(start t [h])\<lparr>pending := [], worker_at := WorkerConvert h\<rparr>"
  let ?s2 = "?s1\<lparr>main_at := MainClose\<rparr>"
  let ?s3 = "?s2\<lparr>main_at := MainJoin, metrics_closed := True\<rparr>"
  have a: "step (start t [h]) ?s1" by (rule step.send) (simp_all add: start_def)
  have b: "step ?s1 ?s2" by (rule step.collect_returns) (simp_all add: start_def)
  have c: "step ?s2 ?s3" by (rule step.close) (simp add: start_def)
  have "step\<^sup>*\<^sup>* (start t [h]) ?s1" using a by (rule r_into_rtranclp)
  then have "step\<^sup>*\<^sup>* (start t [h]) ?s2" using b by (rule rtranclp.rtrancl_into_rtrancl)
  then have run: "step\<^sup>*\<^sup>* (start t [h]) ?s3" using c by (rule rtranclp.rtrancl_into_rtrancl)
  have at: "main_at ?s3 = MainJoin \<and> worker_at ?s3 = WorkerConvert h \<and> collected ?s3 = []"
    by (simp add: start_def)
  from run at have "step\<^sup>*\<^sup>* (start t [h]) ?s3 \<and> main_at ?s3 = MainJoin
      \<and> worker_at ?s3 = WorkerConvert h \<and> collected ?s3 = []"
    by (rule conjI)
  then show ?thesis by (rule exI)
qed

text \<open>
  C1 says that a handle whose decode fails adds no sample, so that the result has as many
  samples as there are handles that decode. CollectMetrics tests the conversion for nil,
  but CollectMetric returns the message it allocated also when Write fails: of two handles,
  the second failing, both come back as samples, the second one as the message Write left,
  and the failure is reported as a non-fatal error.
\<close>

theorem CollectMetrics_keeps_failed_decode:
  "CollectMetrics []
     [handle_of (counter_sample [label ''method'' ''GET''] (f64_of_int 3)), failing_handle ''boom'']
   = ([counter_sample [label ''method'' ''GET''] (f64_of_int 3), new_Metric],
      [Errorf ''Failed to collect metric: %v'' [AError ''boom'']])"
  by (simp add: CollectMetrics_def CollectMetric_def handle_of_def failing_handle_def)

section \<open>AssertEquals\<close>

text \<open>
  C3, as the code has it: when every sample that matches the filter carries a counter or a
  gauge, AssertEquals returns normally and the value it compares is the sum, taken from
  zero and in the order of the samples, of the counter value of each matching sample or
  else of its gauge value. It reports the mismatch error, with the filter, the expected and
  the actual value, exactly when Go's \<^verbatim>\<open>!=\<close> holds between the expected value and that
  sum, and nothing else of its own; before it the log holds what decoding the handles and
  matching the samples reported. When every filter entry has an \<open>=\<close> and every handle
  decodes, the call reports a failure exactly when the sum differs from the expected value.
\<close>

theorem AssertEquals_sums_and_compares:
  "let samples = fst (CollectMetrics t metric);
       matching = filter (\<lambda>m. fst (matches t m labels)) samples;
       actual = foldl f64_add f64_zero (map metric_value matching);
       before = decode_reports metric @ match_reports samples labels;
       mismatch = Errorf ''Expected metric with labels=%q to have a value of %v but we got %v''
                    [AStrings labels, AFloat expected, AFloat actual]
   in (\<forall>m \<in> set matching. Counter m \<noteq> None \<or> Gauge m \<noteq> None) \<longrightarrow>
        AssertEquals t expected metric labels =
          (Returned (), t @ [Helper] @ before @ (if f64_ne expected actual then [mismatch] else []))
        \<and> (mismatch \<in> set (drop (length t) (snd (AssertEquals t expected metric labels)))
               \<longleftrightarrow> f64_ne expected actual)
        \<and> ((\<forall>e \<in> set labels. CHR ''='' \<in> set e) \<and> (\<forall>h \<in> set metric. \<not> decode_fails h) \<longrightarrow>
             ((\<exists>ev \<in> set (drop (length t) (snd (AssertEquals t expected metric labels))). is_failure ev)
                \<longleftrightarrow> f64_ne expected actual))"
proof -
  let ?samples = "map decoded metric"
  let ?matching = "filter (\<lambda>m. fst (matches [] m labels)) ?samples"
  let ?actual = "foldl f64_add f64_zero (map metric_value ?matching)"
  let ?before = "decode_reports metric @ match_reports ?samples labels"
  let ?mismatch = "Errorf ''Expected metric with labels=%q to have a value of %v but we got %v''
                    [AStrings labels, AFloat expected, AFloat ?actual]"
  have same: "\<And>m. fst (matches t m labels) = fst (matches [] m labels)"
    by (rule matches_fst)
  have run: "AssertEquals t expected metric labels =
          (Returned (), t @ [Helper] @ ?before @ (if f64_ne expected ?actual then [?mismatch] else []))"
    if ok: "\<forall>m \<in> set ?matching. Counter m \<noteq> None \<or> Gauge m \<noteq> None"
    by (simp add: AssertEquals_unfold sum_values_ok [OF ok])
  have iff: "(\<exists>ev \<in> set (drop (length t) (snd (AssertEquals t expected metric labels))). is_failure ev)
                \<longleftrightarrow> f64_ne expected ?actual"
    if ok: "\<forall>m \<in> set ?matching. Counter m \<noteq> None \<or> Gauge m \<noteq> None"
      and wf: "\<forall>e \<in> set labels. CHR ''='' \<in> set e" and dec: "\<forall>h \<in> set metric. \<not> decode_fails h"
  proof -
    have new: "drop (length t) (snd (AssertEquals t expected metric labels))
        = [Helper] @ ?before @ (if f64_ne expected ?actual then [?mismatch] else [])"
      by (simp add: run [OF ok])
    from reports_clean [OF wf dec, of ?samples] show ?thesis
      unfolding new by (auto simp: is_failure_def)
  qed
  have only: "(?mismatch \<in> set (drop (length t) (snd (AssertEquals t expected metric labels))))
               \<longleftrightarrow> f64_ne expected ?actual"
    if ok: "\<forall>m \<in> set ?matching. Counter m \<noteq> None \<or> Gauge m \<noteq> None"
  proof -
    have new: "drop (length t) (snd (AssertEquals t expected metric labels))
        = [Helper] @ ?before @ (if f64_ne expected ?actual then [?mismatch] else [])"
      by (simp add: run [OF ok])
    have "?mismatch \<notin> set ?before"
      using decode_reports_events [of ?mismatch metric] by (auto simp: match_reports_no_Errorf)
    then show ?thesis unfolding new by simp
  qed
  show ?thesis
    unfolding Let_def CollectMetrics_eq fst_conv same
    using run iff only by blast
qed

text \<open>
  The two counters with the filter \<open>method=GET\<close>: against 3 the call returns and nothing
  in its log is a failure; against 1 it reports the mismatch.
\<close>

theorem AssertEquals_sums_and_compares_witness:
  "list_all (\<lambda>m. Counter m \<noteq> None \<or> Gauge m \<noteq> None)
     (filter (\<lambda>m. fst (matches [] m [''method=GET''])) (fst (CollectMetrics [] two_counters)))
   \<and> list_all (\<lambda>e. CHR ''='' \<in> set e) [''method=GET'']
   \<and> list_all (\<lambda>h. \<not> decode_fails h) two_counters
   \<and> AssertEquals [] (f64_of_int 3) two_counters [''method=GET''] =
       (Returned (),
        [Helper, Logf ''label %q not found in %q'' [AString ''method=GET'', ALabels [label ''method'' ''POST'']]])
   \<and> list_all (\<lambda>ev. \<not> is_failure ev) (snd (AssertEquals [] (f64_of_int 3) two_counters [''method=GET'']))
   \<and> AssertEquals [] (f64_of_int 1) two_counters [''method=GET''] =
       (Returned (),
        [Helper, Logf ''label %q not found in %q'' [AString ''method=GET'', ALabels [label ''method'' ''POST'']],
         Errorf ''Expected metric with labels=%q to have a value of %v but we got %v''
           [AStrings [''method=GET''], AFloat (f64_of_int 1), AFloat (f64_of_int 3)]])"
proof -
  have hyp: "\<forall>m \<in> set (filter (\<lambda>m. fst (matches [] m [''method=GET''])) (fst (CollectMetrics [] two_counters))).
       Counter m \<noteq> None \<or> Gauge m \<noteq> None"
    by (simp only: CollectMetrics_eq fst_conv two_counters_GET) (simp add: counter_sample_def)
  have wf: "\<forall>e \<in> set [''method=GET'']. CHR ''='' \<in> set e" by simp
  from AssertEquals_sums_and_compares [of "[]" two_counters "[''method=GET'']" "f64_of_int 3"]
       AssertEquals_sums_and_compares [of "[]" two_counters "[''method=GET'']" "f64_of_int 1"]
    hyp wf two_counters_clean
  show ?thesis
    unfolding Let_def list_all_iff
    by (simp add: CollectMetrics_eq two_counters_GET two_counters_GET_log counter_value f64_zero_of_int
        f64_add_of_int f64_eq_of_int f64_ne_def dr2 counter_has_payload is_failure_def del: matches.simps)
qed

text \<open>
  C3 as it is worded fails where the filter is malformed: on the two counters with the
  filter \<open>badfilter\<close> and the expected value 0 no sample matches, the sum is 0 and equals
  the expected value, no mismatch is reported, and yet the log holds two errors, one for
  each sample the matcher was asked about.
\<close>

theorem AssertEquals_sums_and_compares_counterexample:
  "fst (matches [] (counter_sample [label ''method'' ''GET''] (f64_of_int 3)) [''badfilter'']) = False
   \<and> fst (matches [] (counter_sample [label ''method'' ''POST''] (f64_of_int 2)) [''badfilter'']) = False
   \<and> AssertEquals [] f64_zero two_counters [''badfilter''] =
       (Returned (),
        [Helper,
         Error [AString ''metrics labels should have two parts, e.g. key=value''],
         Error [AString ''metrics labels should have two parts, e.g. key=value'']])"
  by (simp add: AssertEquals_unfold dec2 dr2 match_reports_def matches_badfilter f64_ne_def f64_eq_def f64_zero_def
      del: matches.simps)

text \<open>
  C4: when some sample that matches the filter carries neither a counter nor a gauge,
  AssertEquals reports \<open>neither a counter nor a gauge\<close> fatally and is aborted there. The
  summing loop runs up to the first such sample, in the order of the samples, and no
  further: the samples behind it do not change what the loop does. The fatal report is
  the last report of the call and the only fatal one, and no mismatch error is reported.
\<close>

theorem AssertEquals_fatal_on_other_payload:
  "let samples = fst (CollectMetrics t metric);
       matching = filter (\<lambda>m. fst (matches t m labels)) samples;
       before = decode_reports metric @ match_reports samples labels;
       log = t @ [Helper] @ before
   in (\<exists>m \<in> set matching. Counter m = None \<and> Gauge m = None) \<longrightarrow>
        AssertEquals t expected metric labels =
          (Aborted, log @ [Fatal [AString ''neither a counter nor a gauge'']])
        \<and> sum_values log f64_zero matching =
            sum_values log f64_zero
              (take (Suc (length (takeWhile (\<lambda>m. Counter m \<noteq> None \<or> Gauge m \<noteq> None) matching))) matching)
        \<and> (\<forall>x. Fatal x \<notin> set before)
        \<and> (\<forall>x. Errorf ''Expected metric with labels=%q to have a value of %v but we got %v'' x
                 \<notin> set before)"
proof -
  let ?samples = "map decoded metric"
  let ?matching = "filter (\<lambda>m. fst (matches [] m labels)) ?samples"
  let ?before = "decode_reports metric @ match_reports ?samples labels"
  let ?log = "t @ [Helper] @ ?before"
  have noFatal: "\<forall>x. Fatal x \<notin> set ?before"
    using decode_reports_events [of _ metric] by (auto simp: match_reports_no_Fatal)
  have noMismatch: "\<forall>x. Errorf ''Expected metric with labels=%q to have a value of %v but we got %v'' x
                 \<notin> set ?before"
    using decode_reports_events [of _ metric] by (auto simp: match_reports_no_Errorf)
  have stops: "sum_values ?log f64_zero ?matching =
            sum_values ?log f64_zero
              (take (Suc (length (takeWhile (\<lambda>m. Counter m \<noteq> None \<or> Gauge m \<noteq> None) ?matching))) ?matching)"
    by (rule sum_values_stops)
  have run: "AssertEquals t expected metric labels =
          (Aborted, ?log @ [Fatal [AString ''neither a counter nor a gauge'']])"
    if bad: "\<exists>m \<in> set ?matching. Counter m = None \<and> Gauge m = None"
    by (simp add: AssertEquals_unfold sum_values_abort [OF bad])
  have same: "filter (\<lambda>m. fst (matches t m labels)) ?samples = ?matching"
    by (simp add: matches_fst [of t])
  show ?thesis
    unfolding Let_def CollectMetrics_eq fst_conv same
    using noFatal noMismatch stops run by blast
qed

text \<open>A counter and a summary with no filter: the summary aborts the assertion.\<close>

theorem AssertEquals_fatal_on_other_payload_witness:
  "list_ex (\<lambda>m. Counter m = None \<and> Gauge m = None)
     (filter (\<lambda>m. fst (matches [] m [])) (fst (CollectMetrics [] counter_and_summary)))
   \<and> AssertEquals [] (f64_of_int 3) counter_and_summary [] =
       (Aborted, [Helper, Fatal [AString ''neither a counter nor a gauge'']])"
proof -
  have hyp: "\<exists>m \<in> set (filter (\<lambda>m. fst (matches [] m [])) (fst (CollectMetrics [] counter_and_summary))).
       Counter m = None \<and> Gauge m = None"
    by (simp add: CollectMetrics_eq dec_cs) (simp add: sample_defs)
  from AssertEquals_fatal_on_other_payload [of "[]" counter_and_summary "[]" "f64_of_int 3"] hyp
  show ?thesis
    unfolding Let_def list_ex_iff
    by (simp add: dr_cs match_reports_empty_filter)
qed

text \<open>
  C10, as the code has it: when no collected sample matches the filter, the accumulated
  value is zero; AssertEquals returns without a fatal report and without a report of its
  own about the missing match, and it reports the mismatch error exactly when the expected
  value differs from zero. With the expected value zero it adds nothing to what decoding
  and matching reported, so it reports no failure when every filter entry has an \<open>=\<close> and
  every handle decodes.
\<close>

theorem AssertEquals_nothing_matches:
  "let samples = fst (CollectMetrics t metric);
       before = decode_reports metric @ match_reports samples labels;
       mismatch = Errorf ''Expected metric with labels=%q to have a value of %v but we got %v''
                    [AStrings labels, AFloat expected, AFloat f64_zero]
   in (\<forall>m \<in> set samples. \<not> fst (matches t m labels)) \<longrightarrow>
        sum_values (t @ [Helper] @ before) f64_zero (filter (\<lambda>m. fst (matches t m labels)) samples)
          = (Returned f64_zero, t @ [Helper] @ before)
        \<and> AssertEquals t expected metric labels =
            (Returned (), t @ [Helper] @ before @ (if f64_ne expected f64_zero then [mismatch] else []))
        \<and> AssertEquals t f64_zero metric labels = (Returned (), t @ [Helper] @ before)
        \<and> ((\<forall>e \<in> set labels. CHR ''='' \<in> set e) \<and> (\<forall>h \<in> set metric. \<not> decode_fails h) \<longrightarrow>
             (\<forall>ev \<in> set (drop (length t) (snd (AssertEquals t f64_zero metric labels))). \<not> is_failure ev))"
proof -
  let ?samples = "map decoded metric"
  let ?before = "decode_reports metric @ match_reports ?samples labels"
  have same: "\<And>m. fst (matches t m labels) = fst (matches [] m labels)"
    by (rule matches_fst)
  have z: "\<not> f64_ne f64_zero f64_zero"
    by (simp add: f64_ne_def f64_eq_def f64_zero_def)
  have empty: "filter (\<lambda>m. fst (matches [] m labels)) ?samples = []"
    if "\<forall>m \<in> set ?samples. \<not> fst (matches [] m labels)"
    using that by (simp add: filter_empty_conv)
  have run: "AssertEquals t e metric labels =
            (Returned (), t @ [Helper] @ ?before @
               (if f64_ne e f64_zero
                then [Errorf ''Expected metric with labels=%q to have a value of %v but we got %v''
                        [AStrings labels, AFloat e, AFloat f64_zero]]
                else []))"
    if none: "\<forall>m \<in> set ?samples. \<not> fst (matches [] m labels)" for e
    by (simp add: AssertEquals_unfold empty [OF none])
  have zero: "AssertEquals t f64_zero metric labels = (Returned (), t @ [Helper] @ ?before)"
    if none: "\<forall>m \<in> set ?samples. \<not> fst (matches [] m labels)"
    using z by (simp add: run [OF none])
  have clean: "\<forall>ev \<in> set (drop (length t) (snd (AssertEquals t f64_zero metric labels))). \<not> is_failure ev"
    if none: "\<forall>m \<in> set ?samples. \<not> fst (matches [] m labels)"
      and wf: "\<forall>e \<in> set labels. CHR ''='' \<in> set e" and dec: "\<forall>h \<in> set metric. \<not> decode_fails h"
    using reports_clean [OF wf dec, of ?samples] by (simp add: zero [OF none] is_failure_def)
  have sum: "sum_values (t @ [Helper] @ ?before) f64_zero (filter (\<lambda>m. fst (matches [] m labels)) ?samples)
          = (Returned f64_zero, t @ [Helper] @ ?before)"
    if none: "\<forall>m \<in> set ?samples. \<not> fst (matches [] m labels)"
    by (simp add: empty [OF none])
  show ?thesis
    unfolding Let_def CollectMetrics_eq fst_conv same
    using sum run zero clean by blast
qed

text \<open>The two counters with the filter \<open>code=200\<close>, expected 0 and expected 1.\<close>

theorem AssertEquals_nothing_matches_witness:
  "list_all (\<lambda>m. \<not> fst (matches [] m [''code=200''])) (fst (CollectMetrics [] two_counters))
   \<and> list_all (\<lambda>e. CHR ''='' \<in> set e) [''code=200'']
   \<and> list_all (\<lambda>h. \<not> decode_fails h) two_counters
   \<and> AssertEquals [] f64_zero two_counters [''code=200''] =
       (Returned (),
        [Helper,
         Logf ''label %q not found in %q'' [AString ''code=200'', ALabels [label ''method'' ''GET'']],
         Logf ''label %q not found in %q'' [AString ''code=200'', ALabels [label ''method'' ''POST'']]])
   \<and> list_all (\<lambda>ev. \<not> is_failure ev) (snd (AssertEquals [] f64_zero two_counters [''code=200'']))
   \<and> AssertEquals [] (f64_of_int 1) two_counters [''code=200''] =
       (Returned (),
        [Helper,
         Logf ''label %q not found in %q'' [AString ''code=200'', ALabels [label ''method'' ''GET'']],
         Logf ''label %q not found in %q'' [AString ''code=200'', ALabels [label ''method'' ''POST'']],
         Errorf ''Expected metric with labels=%q to have a value of %v but we got %v''
           [AStrings [''code=200''], AFloat (f64_of_int 1), AFloat f64_zero]])"
proof -
  have hyp: "\<forall>m \<in> set (fst (CollectMetrics [] two_counters)). \<not> fst (matches [] m [''code=200''])"
    by (simp add: CollectMetrics_eq dec2 mG200 mP200 del: matches.simps)
  have wf: "\<forall>e \<in> set [''code=200'']. CHR ''='' \<in> set e" by simp
  have log: "match_reports (map decoded two_counters) [''code=200''] =
     [Logf ''label %q not found in %q'' [AString ''code=200'', ALabels [label ''method'' ''GET'']],
      Logf ''label %q not found in %q'' [AString ''code=200'', ALabels [label ''method'' ''POST'']]]"
    by (simp add: dec2 match_reports_def mG200 mP200 del: matches.simps)
  have ne: "f64_ne (f64_of_int 1) f64_zero"
    by (simp add: f64_ne_def f64_zero_of_int f64_eq_of_int)
  from AssertEquals_nothing_matches [of "[]" two_counters "[''code=200'']" "f64_of_int 1"] hyp wf two_counters_clean
  show ?thesis
    unfolding Let_def list_all_iff
    by (simp add: CollectMetrics_eq dr2 log ne is_failure_def del: matches.simps)
qed

text \<open>
  C10 as it is worded fails where the filter is malformed: on the one summary with the
  filter \<open>badfilter\<close> no sample matches and the expected value is 0, and the call reports
  the format error of the matcher, which marks the test as failed.
\<close>

theorem AssertEquals_nothing_matches_counterexample:
  "fst (matches [] (summary_sample [label ''op'' ''write''] 7) [''badfilter'']) = False
   \<and> AssertEquals [] f64_zero one_summary [''badfilter''] =
       (Returned (),
        [Helper, Error [AString ''metrics labels should have two parts, e.g. key=value'']])"
  by (simp add: AssertEquals_unfold dec_os dr_os match_reports_def matches_badfilter f64_ne_def f64_eq_def
      f64_zero_def del: matches.simps)

text \<open>
  C9, as the code has it: the value AssertEquals accumulates is the float64 sum of the
  values of the matching samples, taken from zero in their order. When every value is a
  whole number and the magnitudes add up to less than \<open>2^53\<close>, no addition rounds, the
  sum is the exact one, and every reordering of the samples gives the same accumulated
  value.
\<close>

theorem sum_values_order_whole_numbers:
  assumes perm: "mset ms' = mset ms"
    and ok: "\<forall>m \<in> set ms. (Counter m \<noteq> None \<or> Gauge m \<noteq> None) \<and> f64_is_int (metric_value m)"
    and small: "sum_list (map (\<lambda>m. f64_magnitude (metric_value m)) ms) < 2 ^ 53"
  shows "sum_values t f64_zero ms' = sum_values t f64_zero ms
         \<and> sum_values t f64_zero ms =
             (Returned (f64_of_int (sum_list (map (\<lambda>m. f64_int_value (metric_value m)) ms))), t)"
proof -
  have set: "set ms' = set ms" using perm by (rule mset_eq_setD)
  have mag: "sum_list (map (\<lambda>m. f64_magnitude (metric_value m)) ms')
             = sum_list (map (\<lambda>m. f64_magnitude (metric_value m)) ms)"
    using perm by (rule sum_list_perm)
  have val: "sum_list (map (\<lambda>m. f64_int_value (metric_value m)) ms')
             = sum_list (map (\<lambda>m. f64_int_value (metric_value m)) ms)"
    using perm by (rule sum_list_perm)
  have a: "foldl f64_add (f64_of_int 0) (map metric_value ms)
           = f64_of_int (0 + sum_list (map f64_int_value (map metric_value ms)))"
    by (rule foldl_f64_add_ints) (use ok small in \<open>simp_all add: comp_def\<close>)
  have b: "foldl f64_add (f64_of_int 0) (map metric_value ms')
           = f64_of_int (0 + sum_list (map f64_int_value (map metric_value ms')))"
    by (rule foldl_f64_add_ints) (use ok small set mag in \<open>simp_all add: comp_def\<close>)
  from ok set have ok': "\<forall>m \<in> set ms'. Counter m \<noteq> None \<or> Gauge m \<noteq> None" by simp
  from ok have ok0: "\<forall>m \<in> set ms. Counter m \<noteq> None \<or> Gauge m \<noteq> None" by simp
  show ?thesis
    by (simp add: sum_values_ok [OF ok'] sum_values_ok [OF ok0] f64_zero_of_int a b val comp_def)
qed

text \<open>The counters 3 and 2 in both orders: the sum is 5.\<close>

theorem sum_values_order_whole_numbers_witness:
  "mset [counter_sample [] (f64_of_int 2), counter_sample [] (f64_of_int 3)]
     = mset [counter_sample [] (f64_of_int 3), counter_sample [] (f64_of_int 2)]
   \<and> list_all (\<lambda>m. (Counter m \<noteq> None \<or> Gauge m \<noteq> None) \<and> f64_is_int (metric_value m))
        [counter_sample [] (f64_of_int 3), counter_sample [] (f64_of_int 2)]
   \<and> sum_list (map (\<lambda>m. f64_magnitude (metric_value m))
        [counter_sample [] (f64_of_int 3), counter_sample [] (f64_of_int 2)]) < 2 ^ 53
   \<and> sum_values [] f64_zero [counter_sample [] (f64_of_int 2), counter_sample [] (f64_of_int 3)]
       = (Returned (f64_of_int 5), [])
   \<and> sum_values [] f64_zero [counter_sample [] (f64_of_int 3), counter_sample [] (f64_of_int 2)]
       = (Returned (f64_of_int 5), [])"
proof -
  let ?a = "counter_sample [] (f64_of_int 3)" and ?b = "counter_sample [] (f64_of_int 2)"
  have perm: "mset [?b, ?a] = mset [?a, ?b]" by (simp add: add.commute)
  have ok: "\<forall>m \<in> set [?a, ?b]. (Counter m \<noteq> None \<or> Gauge m \<noteq> None) \<and> f64_is_int (metric_value m)"
    by (simp add: counter_value counter_has_payload of_int_is_int)
  have small: "sum_list (map (\<lambda>m. f64_magnitude (metric_value m)) [?a, ?b]) < 2 ^ 53"
    by (simp add: counter_value of_int_magnitude)
  from sum_values_order_whole_numbers [OF perm ok small, of "[]"] perm ok small
  show ?thesis
    unfolding list_all_iff
    by (simp add: counter_value of_int_value del: sum_values.simps)
qed

text \<open>
  Without that bound the order counts. The counters \<open>2^53\<close>, 1, 1 sum to \<open>2^53\<close>, each
  addition of 1 being rounded back to the even neighbour; in the order 1, 1, \<open>2^53\<close> they
  sum to \<open>2^53 + 2\<close>. With the expected value \<open>2^53\<close> and no filter the assertion passes
  on the first collector and reports a mismatch on the second.
\<close>

theorem sum_values_order_counterexample:
  "sum_values [] f64_zero
     [counter_sample [] (Finite False (2 ^ 52) 1), counter_sample [] (f64_of_int 1), counter_sample [] (f64_of_int 1)]
     = (Returned (Finite False (2 ^ 52) 1), [])
   \<and> sum_values [] f64_zero
     [counter_sample [] (f64_of_int 1), counter_sample [] (f64_of_int 1), counter_sample [] (Finite False (2 ^ 52) 1)]
     = (Returned (Finite False (2 ^ 52 + 1) 1), [])
   \<and> f64_ne (Finite False (2 ^ 52) 1) (Finite False (2 ^ 52 + 1) 1)
   \<and> AssertEquals [] (Finite False (2 ^ 52) 1)
        (map handle_of [counter_sample [] (Finite False (2 ^ 52) 1), counter_sample [] (f64_of_int 1),
                        counter_sample [] (f64_of_int 1)]) []
       = (Returned (), [Helper])
   \<and> AssertEquals [] (Finite False (2 ^ 52) 1)
        (map handle_of [counter_sample [] (f64_of_int 1), counter_sample [] (f64_of_int 1),
                        counter_sample [] (Finite False (2 ^ 52) 1)]) []
       = (Returned (),
          [Helper, Errorf ''Expected metric with labels=%q to have a value of %v but we got %v''
                     [AStrings [], AFloat (Finite False (2 ^ 52) 1), AFloat (Finite False (2 ^ 52 + 1) 1)]])"
  by (simp add: AssertEquals_unfold decoded_handle_of decode_reports_handle_of [of "[a, b, c]" for a b c, simplified]
      match_reports_empty_filter sum_values_counter f64_eval f64_ne_def f64_eq_def
      del: sum_values.simps(2))

section \<open>AssertSummarySampleCount\<close>

text \<open>
  C5, as the code has it: AssertSummarySampleCount collects and filters as AssertEquals
  does. If a matching sample carries no summary it reports \<open>metric is not a summary\<close>
  fatally and is aborted; otherwise it returns, and the value it compares is the sum of
  the sample counts of the matching summaries, each converted to Go's \<^verbatim>\<open>int\<close>, in
  \<^verbatim>\<open>int\<close> arithmetic. It reports the mismatch error exactly when that sum differs from
  the expected value, and nothing else of its own. When every filter entry has an \<open>=\<close>,
  every handle decodes and every matching sample is a summary, the call reports a failure
  exactly when the sum differs from the expected value.
\<close>

theorem AssertSummarySampleCount_sums_counts:
  "let samples = fst (CollectMetrics t metric);
       matching = filter (\<lambda>m. fst (matches t m labels)) samples;
       before = decode_reports metric @ match_reports samples labels;
       actual = sum_list (map summary_count matching);
       mismatch = Errorf ''Expected metric with labels=%q to have a sample count of %v but we got %v''
                    [AStrings labels, AInt expected, AInt actual]
   in AssertSummarySampleCount t expected metric labels =
        (if \<exists>m \<in> set matching. Summary m = None
         then (Aborted, t @ [Helper] @ before @ [Fatal [AString ''metric is not a summary'']])
         else (Returned (), t @ [Helper] @ before @ (if expected \<noteq> actual then [mismatch] else [])))
      \<and> ((\<forall>m \<in> set matching. Summary m \<noteq> None) \<longrightarrow>
           (mismatch \<in> set (drop (length t) (snd (AssertSummarySampleCount t expected metric labels)))
              \<longleftrightarrow> expected \<noteq> actual))
      \<and> ((\<forall>e \<in> set labels. CHR ''='' \<in> set e) \<and> (\<forall>h \<in> set metric. \<not> decode_fails h)
            \<and> (\<forall>m \<in> set matching. Summary m \<noteq> None) \<longrightarrow>
           ((\<exists>ev \<in> set (drop (length t) (snd (AssertSummarySampleCount t expected metric labels))). is_failure ev)
              \<longleftrightarrow> expected \<noteq> actual))"
proof -
  let ?samples = "map decoded metric"
  let ?matching = "filter (\<lambda>m. fst (matches [] m labels)) ?samples"
  let ?before = "decode_reports metric @ match_reports ?samples labels"
  let ?actual = "sum_list (map summary_count ?matching)"
  let ?mismatch = "Errorf ''Expected metric with labels=%q to have a sample count of %v but we got %v''
                    [AStrings labels, AInt expected, AInt ?actual]"
  have same: "\<And>m. fst (matches t m labels) = fst (matches [] m labels)"
    by (rule matches_fst)
  have abort: "AssertSummarySampleCount t expected metric labels =
      (Aborted, t @ [Helper] @ ?before @ [Fatal [AString ''metric is not a summary'']])"
    if bad: "\<exists>m \<in> set ?matching. Summary m = None"
    by (simp add: AssertSummarySampleCount_unfold sum_counts_abort [OF bad])
  have run: "AssertSummarySampleCount t expected metric labels =
      (Returned (), t @ [Helper] @ ?before @ (if expected \<noteq> ?actual then [?mismatch] else []))"
    if ok: "\<forall>m \<in> set ?matching. Summary m \<noteq> None"
    by (simp add: AssertSummarySampleCount_unfold sum_counts_ok [OF ok])
  have eq: "AssertSummarySampleCount t expected metric labels =
        (if \<exists>m \<in> set ?matching. Summary m = None
         then (Aborted, t @ [Helper] @ ?before @ [Fatal [AString ''metric is not a summary'']])
         else (Returned (), t @ [Helper] @ ?before @ (if expected \<noteq> ?actual then [?mismatch] else [])))"
  proof (cases "\<exists>m \<in> set ?matching. Summary m = None")
    case True
    from abort [OF True] True show ?thesis by (simp only: if_True)
  next
    case False
    then have ok: "\<forall>m \<in> set ?matching. Summary m \<noteq> None" by auto
    from run [OF ok] False show ?thesis by (simp only: if_False)
  qed
  have iff: "(\<exists>ev \<in> set (drop (length t) (snd (AssertSummarySampleCount t expected metric labels))). is_failure ev)
              \<longleftrightarrow> expected \<noteq> ?actual"
    if wf: "\<forall>e \<in> set labels. CHR ''='' \<in> set e" and dec: "\<forall>h \<in> set metric. \<not> decode_fails h"
      and ok: "\<forall>m \<in> set ?matching. Summary m \<noteq> None"
  proof -
    have new: "drop (length t) (snd (AssertSummarySampleCount t expected metric labels))
        = [Helper] @ ?before @ (if expected \<noteq> ?actual then [?mismatch] else [])"
      by (simp add: run [OF ok])
    from reports_clean [OF wf dec, of ?samples] show ?thesis
      unfolding new by (auto simp: is_failure_def)
  qed
  have only: "(?mismatch \<in> set (drop (length t) (snd (AssertSummarySampleCount t expected metric labels))))
              \<longleftrightarrow> expected \<noteq> ?actual"
    if ok: "\<forall>m \<in> set ?matching. Summary m \<noteq> None"
  proof -
    have new: "drop (length t) (snd (AssertSummarySampleCount t expected metric labels))
        = [Helper] @ ?before @ (if expected \<noteq> ?actual then [?mismatch] else [])"
      by (simp add: run [OF ok])
    have "?mismatch \<notin> set ?before"
      using decode_reports_events [of ?mismatch metric] by (auto simp: match_reports_no_Errorf)
    then show ?thesis unfolding new by simp
  qed
  show ?thesis
    unfolding Let_def CollectMetrics_eq fst_conv same
    using eq iff only by blast
qed

text \<open>
  The summary with seven observations against 7 and against 6, and the two counters, which
  are no summaries.
\<close>

theorem AssertSummarySampleCount_sums_counts_witness:
  "list_all (\<lambda>e. CHR ''='' \<in> set e) [''op=write'']
   \<and> list_all (\<lambda>h. \<not> decode_fails h) one_summary
   \<and> list_all (\<lambda>m. Summary m \<noteq> None)
        (filter (\<lambda>m. fst (matches [] m [''op=write''])) (fst (CollectMetrics [] one_summary)))
   \<and> AssertSummarySampleCount [] 7 one_summary [''op=write''] = (Returned (), [Helper])
   \<and> list_all (\<lambda>ev. \<not> is_failure ev) (snd (AssertSummarySampleCount [] 7 one_summary [''op=write'']))
   \<and> AssertSummarySampleCount [] 6 one_summary [''op=write''] =
       (Returned (),
        [Helper, Errorf ''Expected metric with labels=%q to have a sample count of %v but we got %v''
                   [AStrings [''op=write''], AInt 6, AInt 7]])
   \<and> AssertSummarySampleCount [] 7 two_counters [] =
       (Aborted, [Helper, Fatal [AString ''metric is not a summary'']])"
proof -
  have s: "Summary (summary_sample [label ''op'' ''write''] 7) = Some \<lparr>SampleCount = Some 7, SampleSum = None\<rparr>"
    by (simp add: summary_sample_def)
  have c: "Summary (counter_sample [label ''method'' ''GET''] (f64_of_int 3)) = None"
    by (simp add: counter_sample_def new_Metric_def)
  have wf: "\<forall>e \<in> set [''op=write'']. CHR ''='' \<in> set e" by simp
  have dec: "\<forall>h \<in> set one_summary. \<not> decode_fails h"
    by (simp add: one_summary_def decode_fails_def handle_of_def)
  from AssertSummarySampleCount_sums_counts [of "[]" one_summary "[''op=write'']" 7]
       AssertSummarySampleCount_sums_counts [of "[]" one_summary "[''op=write'']" 6]
       AssertSummarySampleCount_sums_counts [of "[]" two_counters "[]" 7]
       wf dec
  show ?thesis
    unfolding Let_def list_all_iff
    by (simp add: CollectMetrics_eq dec_os dr_os dec2 dr2 mSW count7 s c match_reports_def is_failure_def
        del: matches.simps(2))
qed

text \<open>
  C5 as it is worded fails where the filter is malformed: on the one summary with the
  filter \<open>badfilter\<close> and the expected value 0 the sum is 0 and equals the expected value,
  and a non-fatal error is reported all the same, the format error of the matcher.
\<close>

theorem AssertSummarySampleCount_sums_counts_counterexample:
  "AssertSummarySampleCount [] 0 one_summary [''badfilter''] =
     (Returned (),
      [Helper, Error [AString ''metrics labels should have two parts, e.g. key=value'']])"
  by (simp add: AssertSummarySampleCount_unfold dec_os dr_os match_reports_def matches_badfilter
      del: matches.simps)

section \<open>GetMetric\<close>

text \<open>
  C6, as the code has it: GetMetric returns the first sample, in the order CollectMetrics
  returns them, that matches the filter, and nil exactly when no sample matches. It adds
  no report of its own, when it returns nil as when it returns a sample: its log holds what
  decoding the handles reported and what matching reported for the samples up to the first
  match, which are all the samples when nil is returned. When every filter entry has an
  \<open>=\<close> and every handle decodes, the call reports no failure.
\<close>

theorem GetMetric_first_match:
  "let samples = fst (CollectMetrics t metric);
       found = fst (GetMetric t metric expectedLabels);
       log = snd (GetMetric t metric expectedLabels);
       asked = take (Suc (length (takeWhile (\<lambda>m. \<not> fst (matches t m expectedLabels)) samples))) samples
   in found = find (\<lambda>m. fst (matches t m expectedLabels)) samples
      \<and> (\<forall>m. found = Some m \<longleftrightarrow>
             (\<exists>i < length samples. m = samples ! i \<and> fst (matches t m expectedLabels)
                \<and> (\<forall>j < i. \<not> fst (matches t (samples ! j) expectedLabels))))
      \<and> (found = None \<longleftrightarrow> (\<forall>m \<in> set samples. \<not> fst (matches t m expectedLabels)))
      \<and> log = t @ decode_reports metric @ match_reports asked expectedLabels
      \<and> (found = None \<longrightarrow> log = t @ decode_reports metric @ match_reports samples expectedLabels)
      \<and> ((\<forall>e \<in> set expectedLabels. CHR ''='' \<in> set e) \<and> (\<forall>h \<in> set metric. \<not> decode_fails h) \<longrightarrow>
            (\<forall>ev \<in> set (drop (length t) log). \<not> is_failure ev))"
proof -
  let ?samples = "map decoded metric"
  let ?P = "\<lambda>m. fst (matches [] m expectedLabels)"
  let ?seen = "take (Suc (length (takeWhile (\<lambda>m. \<not> ?P m) ?samples))) ?samples"
  have same: "\<And>m. fst (matches t m expectedLabels) = fst (matches [] m expectedLabels)"
    by (rule matches_fst)
  have found: "fst (GetMetric t metric expectedLabels) = find ?P ?samples"
    by (simp add: GetMetric_unfold)
  have log: "snd (GetMetric t metric expectedLabels) = t @ decode_reports metric @ match_reports ?seen expectedLabels"
    by (simp add: GetMetric_unfold)
  have first: "\<forall>m. find ?P ?samples = Some m \<longleftrightarrow>
             (\<exists>i < length ?samples. m = ?samples ! i \<and> ?P m \<and> (\<forall>j < i. \<not> ?P (?samples ! j)))"
    by (auto simp: find_Some_iff)
  have none: "find ?P ?samples = None \<longleftrightarrow> (\<forall>m \<in> set ?samples. \<not> ?P m)"
    by (auto simp: find_None_iff)
  have all: "?seen = ?samples" if "find ?P ?samples = None"
  proof -
    from that have "\<forall>m \<in> set ?samples. \<not> ?P m" by (simp only: none)
    then have tw: "takeWhile (\<lambda>m. \<not> ?P m) ?samples = ?samples"
      by (intro takeWhile_eq_all_conv [THEN iffD2]) simp
    show ?thesis by (simp only: tw) simp
  qed
  have clean: "\<forall>ev \<in> set (drop (length t) (t @ decode_reports metric @ match_reports ?seen expectedLabels)).
                 \<not> is_failure ev"
    if wf: "\<forall>e \<in> set expectedLabels. CHR ''='' \<in> set e" and dec: "\<forall>h \<in> set metric. \<not> decode_fails h"
    using reports_clean [OF wf dec, of ?seen] by simp
  show ?thesis
    unfolding Let_def CollectMetrics_eq fst_conv same found log
  proof (intro conjI impI; (elim conjE)?)
    show "find ?P ?samples = find ?P ?samples" ..
    show "\<forall>m. find ?P ?samples = Some m \<longleftrightarrow>
             (\<exists>i < length ?samples. m = ?samples ! i \<and> ?P m \<and> (\<forall>j < i. \<not> ?P (?samples ! j)))"
      by (rule first)
    show "find ?P ?samples = None \<longleftrightarrow> (\<forall>m \<in> set ?samples. \<not> ?P m)"
      by (rule none)
    show "t @ decode_reports metric @ match_reports ?seen expectedLabels
          = t @ decode_reports metric @ match_reports ?seen expectedLabels" ..
    show "t @ decode_reports metric @ match_reports ?seen expectedLabels
          = t @ decode_reports metric @ match_reports ?samples expectedLabels"
      if "find ?P ?samples = None"
      by (simp only: all [OF that])
    show "\<forall>ev \<in> set (drop (length t) (t @ decode_reports metric @ match_reports ?seen expectedLabels)).
            \<not> is_failure ev"
      if "\<forall>e \<in> set expectedLabels. CHR ''='' \<in> set e" "\<forall>h \<in> set metric. \<not> decode_fails h"
      using that by (rule clean)
  qed
qed

text \<open>The two counters: nothing carries \<open>code=200\<close>, the second sample carries \<open>method=POST\<close>.\<close>

theorem GetMetric_first_match_witness:
  "list_all (\<lambda>e. CHR ''='' \<in> set e) [''code=200'']
   \<and> list_all (\<lambda>h. \<not> decode_fails h) two_counters
   \<and> GetMetric [] two_counters [''code=200''] =
       (None,
        [Logf ''label %q not found in %q'' [AString ''code=200'', ALabels [label ''method'' ''GET'']],
         Logf ''label %q not found in %q'' [AString ''code=200'', ALabels [label ''method'' ''POST'']]])
   \<and> list_all (\<lambda>ev. \<not> is_failure ev) (snd (GetMetric [] two_counters [''code=200'']))
   \<and> fst (GetMetric [] two_counters [''method=POST'']) = Some (counter_sample [label ''method'' ''POST''] (f64_of_int 2))"
proof -
  note at_200 = GetMetric_first_match [of "[]" two_counters "[''code=200'']", unfolded Let_def]
  note at_POST = GetMetric_first_match [of "[]" two_counters "[''method=POST'']", unfolded Let_def]
  have wf: "\<forall>e \<in> set [''code=200'']. CHR ''='' \<in> set e" by simp
  have none: "find (\<lambda>m. fst (matches [] m [''code=200''])) (map decoded two_counters) = None"
    by (simp add: dec2 mG200 mP200 del: matches.simps)
  have reports: "match_reports (map decoded two_counters) [''code=200''] =
     [Logf ''label %q not found in %q'' [AString ''code=200'', ALabels [label ''method'' ''GET'']],
      Logf ''label %q not found in %q'' [AString ''code=200'', ALabels [label ''method'' ''POST'']]]"
    by (simp add: dec2 match_reports_def mG200 mP200 del: matches.simps)
  have mPP: "matches [] (counter_sample [label ''method'' ''POST''] (f64_of_int 2)) [''method=POST''] = (True, [])"
    by (simp add: sample_defs matches_eval)
  have mGP: "fst (matches [] (counter_sample [label ''method'' ''GET''] (f64_of_int 3)) [''method=POST'']) = False"
    by (simp add: sample_defs matches_eval)
  have some: "find (\<lambda>m. fst (matches [] m [''method=POST''])) (map decoded two_counters)
      = Some (counter_sample [label ''method'' ''POST''] (f64_of_int 2))"
    by (simp add: dec2 mPP mGP del: matches.simps)
  have a: "fst (GetMetric [] two_counters [''code=200'']) = None"
    using at_200 [THEN conjunct1] by (simp only: CollectMetrics_eq fst_conv none)
  have b: "snd (GetMetric [] two_counters [''code=200'']) =
      [Logf ''label %q not found in %q'' [AString ''code=200'', ALabels [label ''method'' ''GET'']],
       Logf ''label %q not found in %q'' [AString ''code=200'', ALabels [label ''method'' ''POST'']]]"
    using at_200 [THEN conjunct2, THEN conjunct2, THEN conjunct2, THEN conjunct2, THEN conjunct1] a
    by (simp only: CollectMetrics_eq fst_conv dr2 reports) simp
  have c: "\<forall>ev \<in> set (drop (length ([]::event list)) (snd (GetMetric [] two_counters [''code=200'']))). \<not> is_failure ev"
    using at_200 [THEN conjunct2, THEN conjunct2, THEN conjunct2, THEN conjunct2, THEN conjunct2]
      wf two_counters_clean by blast
  have d: "fst (GetMetric [] two_counters [''method=POST'']) = Some (counter_sample [label ''method'' ''POST''] (f64_of_int 2))"
    using at_POST [THEN conjunct1] by (simp only: CollectMetrics_eq fst_conv some)
  from a b have ab: "GetMetric [] two_counters [''code=200''] =
       (None,
        [Logf ''label %q not found in %q'' [AString ''code=200'', ALabels [label ''method'' ''GET'']],
         Logf ''label %q not found in %q'' [AString ''code=200'', ALabels [label ''method'' ''POST'']]])"
    by (simp add: prod_eq_iff)
  from c have c': "list_all (\<lambda>ev. \<not> is_failure ev) (snd (GetMetric [] two_counters [''code=200'']))"
    by (simp add: list_all_iff)
  from wf have wf': "list_all (\<lambda>e. CHR ''='' \<in> set e) [''code=200'']" by simp
  from two_counters_clean have dec': "list_all (\<lambda>h. \<not> decode_fails h) two_counters"
    by (simp add: list_all_iff)
  from wf' dec' ab c' d show ?thesis by (intro conjI)
qed

text \<open>
  C6 as it is worded fails where the filter is malformed: on the two counters with the
  filter \<open>badfilter\<close> GetMetric returns nil, and the log holds two errors, one for each
  sample the matcher was asked about.
\<close>

theorem GetMetric_first_match_counterexample:
  "GetMetric [] two_counters [''badfilter''] =
     (None,
      [Error [AString ''metrics labels should have two parts, e.g. key=value''],
       Error [AString ''metrics labels should have two parts, e.g. key=value'']])"
  by (simp add: GetMetric_unfold dec2 dr2 match_reports_def matches_badfilter del: matches.simps)
end
